theory Spec2Isabelle
  imports Complex_Main "HOL-Library.Multiset"
begin

section \<open>JavaScript values\<close>

text \<open>
  The grader (functions/src/graders/languageGrader.js) works on the value that
  \<^verbatim>\<open>JSON.parse\<close> returns for the translation file, and pushes object literals
  into the lists of its report. Both are modelled by one datatype of JavaScript values.
  An object is the list of its own enumerable properties in the order of
  \<^verbatim>\<open>Object.entries\<close>; \<^verbatim>\<open>undefined\<close> is the value \<open>None\<close> of \<open>jv option\<close>.
  Numbers are rationals: the arithmetic of the score is modelled exactly, without the
  rounding of IEEE doubles. A \<open>char\<close> stands for one UTF-16 code unit below 256.
\<close>

datatype jv =
    JNull
  | JBool bool
  | JNum rat
  | JStr string
  | JArr "jv list"
  | JObj "(string \<times> jv) list"

type_synonym jsobj = "(string \<times> jv) list"

text \<open>ToBoolean: what \<^verbatim>\<open>!x\<close>, \<^verbatim>\<open>x && y\<close> and \<^verbatim>\<open>x || y\<close> test.\<close>

fun truthy :: "jv option \<Rightarrow> bool" where
  "truthy None = False"
| "truthy (Some JNull) = False"
| "truthy (Some (JBool b)) = b"
| "truthy (Some (JNum r)) = (r \<noteq> 0)"
| "truthy (Some (JStr s)) = (s \<noteq> [])"
| "truthy (Some (JArr xs)) = True"
| "truthy (Some (JObj kvs)) = True"

section \<open>Strings and numerals\<close>

definition char_between :: "char \<Rightarrow> char \<Rightarrow> char \<Rightarrow> bool" where
  "char_between lo hi c \<longleftrightarrow> (of_char lo :: nat) \<le> of_char c \<and> (of_char c :: nat) \<le> of_char hi"

definition is_digit :: "char \<Rightarrow> bool" where
  "is_digit c = char_between CHR ''0'' CHR ''9'' c"

text \<open>
  The code units below 256 that JavaScript counts as white space or line terminator:
  what \<^verbatim>\<open>\s\<close> matches and \<^verbatim>\<open>trim\<close> removes.
\<close>

definition is_space :: "char \<Rightarrow> bool" where
  "is_space c \<longleftrightarrow> (of_char c :: nat) \<in> {9, 10, 11, 12, 13, 32, 160}"

definition trim :: "string \<Rightarrow> string" where
  "trim s = rev (dropWhile is_space (rev (dropWhile is_space s)))"

text \<open>\<^verbatim>\<open>s.split(c)\<close> for a separator of one character.\<close>

fun split_on :: "char \<Rightarrow> string \<Rightarrow> string list" where
  "split_on c [] = [[]]"
| "split_on c (x # xs) =
     (if x = c then [] # split_on c xs
      else (case split_on c xs of [] \<Rightarrow> [[x]] | piece # pieces \<Rightarrow> (x # piece) # pieces))"

text \<open>The decimal rendering of an index, as in \<^verbatim>\<open>`${fullKey}.${index}`\<close>.\<close>

definition digit_of :: "nat \<Rightarrow> char" where
  "digit_of d = char_of (48 + d)"

function show_nat :: "nat \<Rightarrow> string" where
  "show_nat n = (if n < 10 then [digit_of n] else show_nat (n div 10) @ [digit_of (n mod 10)])"
  by pat_completeness auto
termination
  by (relation "measure id") auto

declare show_nat.simps [simp del]

text \<open>
  \<^verbatim>\<open>parseInt(string)\<close> without a radix (ECMAScript 19.2.5): leading white space is
  skipped, a sign is read, a prefix \<^verbatim>\<open>0x\<close> selects radix 16, and the longest run of
  digits is the value; \<open>None\<close> is \<^verbatim>\<open>NaN\<close>.
\<close>

definition digit_value :: "char \<Rightarrow> nat" where
  "digit_value c =
     (if is_digit c then of_char c - 48
      else if char_between CHR ''a'' CHR ''z'' c then of_char c - 87
      else if char_between CHR ''A'' CHR ''Z'' c then of_char c - 55
      else 36)"

definition radix_value :: "nat \<Rightarrow> string \<Rightarrow> nat" where
  "radix_value R Z = foldl (\<lambda>a c. R * a + digit_value c) 0 Z"

definition parseInt :: "string \<Rightarrow> int option" where
  "parseInt str =
     (let S0 = dropWhile is_space str;
          negative = (take 1 S0 = ''-'');
          S1 = (if take 1 S0 = ''+'' \<or> take 1 S0 = ''-'' then drop 1 S0 else S0);
          hex = (take 2 S1 = ''0x'' \<or> take 2 S1 = ''0X'');
          S2 = (if hex then drop 2 S1 else S1);
          R = (if hex then 16 else 10);
          Z = takeWhile (\<lambda>c. digit_value c < R) S2
      in if Z = [] then None
         else Some ((if negative then - 1 else 1) * int (radix_value R Z)))"

text \<open>
  \<^verbatim>\<open>isNaN(string)\<close>: the string is converted by \<^verbatim>\<open>Number\<close> (ECMAScript 7.1.4.1,
  the grammar \<^verbatim>\<open>StringNumericLiteral\<close>), and the result is \<^verbatim>\<open>NaN\<close> exactly when
  the trimmed string is neither empty nor a numeric literal.
\<close>

definition is_digits :: "string \<Rightarrow> bool" where
  "is_digits s \<longleftrightarrow> s \<noteq> [] \<and> list_all is_digit s"

definition exponent_part_opt :: "string \<Rightarrow> bool" where
  "exponent_part_opt e =
     (case e of
        [] \<Rightarrow> True
      | c # r \<Rightarrow> (c = CHR ''e'' \<or> c = CHR ''E'') \<and>
          is_digits (if take 1 r = ''+'' \<or> take 1 r = ''-'' then drop 1 r else r))"

definition unsigned_decimal_literal :: "string \<Rightarrow> bool" where
  "unsigned_decimal_literal s =
     (s = ''Infinity'' \<or>
      (let ip = takeWhile is_digit s; r1 = dropWhile is_digit s
       in if take 1 r1 = ''.''
          then (let fp = takeWhile is_digit (drop 1 r1); r3 = dropWhile is_digit (drop 1 r1)
                in (ip \<noteq> [] \<or> fp \<noteq> []) \<and> exponent_part_opt r3)
          else ip \<noteq> [] \<and> exponent_part_opt r1))"

definition decimal_literal :: "string \<Rightarrow> bool" where
  "decimal_literal s =
     unsigned_decimal_literal (if take 1 s = ''+'' \<or> take 1 s = ''-'' then drop 1 s else s)"

definition non_decimal_literal :: "string \<Rightarrow> bool" where
  "non_decimal_literal s =
     (let ds = drop 2 s in
      ds \<noteq> [] \<and>
      ((take 2 s = ''0x'' \<or> take 2 s = ''0X'') \<and> list_all (\<lambda>c. digit_value c < 16) ds
       \<or> (take 2 s = ''0o'' \<or> take 2 s = ''0O'') \<and> list_all (\<lambda>c. digit_value c < 8) ds
       \<or> (take 2 s = ''0b'' \<or> take 2 s = ''0B'') \<and> list_all (\<lambda>c. digit_value c < 2) ds))"

definition isNaN :: "string \<Rightarrow> bool" where
  "isNaN s = (let t = trim s in \<not> (t = [] \<or> decimal_literal t \<or> non_decimal_literal t))"

section \<open>KeyPathResolver and KeyExtractor\<close>

text \<open>
  \<^verbatim>\<open>Object.prototype.hasOwnProperty.call(current, part)\<close> for a truthy value, and
  \<^verbatim>\<open>current[part]\<close> where that holds. A string and an array have the own
  properties \<^verbatim>\<open>length\<close> and their indices; the wrappers of numbers and booleans
  have none. (In \<^verbatim>\<open>resolveKey\<close> the value is never an array: that case is taken
  first.)
\<close>

fun hasOwnProperty :: "jv \<Rightarrow> string \<Rightarrow> bool" where
  "hasOwnProperty (JObj kvs) part = (part \<in> set (map fst kvs))"
| "hasOwnProperty (JStr s) part = (part = ''length'' \<or> part \<in> set (map show_nat [0..<length s]))"
| "hasOwnProperty (JArr xs) part = (part = ''length'' \<or> part \<in> set (map show_nat [0..<length xs]))"
| "hasOwnProperty v part = False"

fun getProperty :: "jv \<Rightarrow> string \<Rightarrow> jv option" where
  "getProperty (JObj kvs) part = map_of kvs part"
| "getProperty (JStr s) part =
     (if part = ''length'' then Some (JNum (of_nat (length s)))
      else map_of (zip (map show_nat [0..<length s]) (map (\<lambda>c. JStr [c]) s)) part)"
| "getProperty (JArr xs) part =
     (if part = ''length'' then Some (JNum (of_nat (length xs)))
      else map_of (zip (map show_nat [0..<length xs]) xs) part)"
| "getProperty v part = None"

text \<open>\<^verbatim>\<open>current[parseInt(part)]\<close> on an array.\<close>

fun array_index :: "jv list \<Rightarrow> int option \<Rightarrow> jv option" where
  "array_index xs None = None"
| "array_index xs (Some n) = (if 0 \<le> n \<and> nat n < length xs then Some (xs ! nat n) else None)"

text \<open>
  \<^verbatim>\<open>resolveKey(obj, key)\<close>, languageGrader.js lines 172-188: the loop over the parts
  of the key, with \<open>current\<close> as its state.
\<close>

fun resolve_parts :: "jv option \<Rightarrow> string list \<Rightarrow> jv option" where
  "resolve_parts current [] = current"
| "resolve_parts current (part # parts) =
     (case current of
        Some (JArr xs) \<Rightarrow>
          if isNaN part then None
          else resolve_parts (array_index xs (parseInt part)) parts
      | Some v \<Rightarrow>
          if truthy current \<and> hasOwnProperty v part
          then resolve_parts (getProperty v part) parts
          else None
      | None \<Rightarrow> None)"

definition resolveKey :: "jv \<Rightarrow> string \<Rightarrow> jv option" where
  "resolveKey obj key = resolve_parts (Some obj) (split_on CHR ''.'' key)"

text \<open>
  \<^verbatim>\<open>extractAllKeys(obj, prefix)\<close>, languageGrader.js lines 207-229.
  \<open>fullKey\<close> is the template of line 211; \<open>extractEntries\<close> is the loop over
  \<^verbatim>\<open>Object.entries(obj)\<close> of an object and \<open>extractIndexed\<close> the same loop over the
  entries of an array (its indices as keys); \<open>extractValue\<close> is the body of the loop
  and \<open>extractItems\<close> the \<^verbatim>\<open>forEach\<close> of lines 216-222. The entries of a string
  are its characters, numbers and booleans have none, and \<^verbatim>\<open>Object.entries(null)\<close>
  throws: the caller \<open>extractAllKeys_top\<close> raises it.
\<close>

definition fullKey :: "string \<Rightarrow> string \<Rightarrow> string" where
  "fullKey prefix key = (if prefix \<noteq> [] then prefix @ ''.'' @ key else key)"

function (sequential) extractAllKeys :: "jv \<Rightarrow> string \<Rightarrow> string list"
  and extractEntries :: "(string \<times> jv) list \<Rightarrow> string \<Rightarrow> string list"
  and extractIndexed :: "jv list \<Rightarrow> nat \<Rightarrow> string \<Rightarrow> string list"
  and extractValue :: "jv \<Rightarrow> string \<Rightarrow> string list"
  and extractItems :: "jv list \<Rightarrow> nat \<Rightarrow> string \<Rightarrow> string list"
where
  "extractAllKeys (JObj kvs) prefix = extractEntries kvs prefix"
| "extractAllKeys (JArr xs) prefix = extractIndexed xs 0 prefix"
| "extractAllKeys (JStr s) prefix = map (\<lambda>i. fullKey prefix (show_nat i)) [0..<length s]"
| "extractAllKeys v prefix = []"
| "extractEntries [] prefix = []"
| "extractEntries ((key, val) # rest) prefix =
     extractValue val (fullKey prefix key) @ extractEntries rest prefix"
| "extractIndexed [] i prefix = []"
| "extractIndexed (val # rest) i prefix =
     extractValue val (fullKey prefix (show_nat i)) @ extractIndexed rest (Suc i) prefix"
| "extractValue (JObj kvs) fk = extractAllKeys (JObj kvs) fk"
| "extractValue (JArr items) fk = extractItems items 0 fk"
| "extractValue v fk = [fk]"
| "extractItems [] i fk = []"
| "extractItems (item # items) i fk =
     (case item of
        JObj kvs \<Rightarrow> extractAllKeys item (fk @ ''.'' @ show_nat i)
      | JArr ys \<Rightarrow> extractAllKeys item (fk @ ''.'' @ show_nat i)
      | _ \<Rightarrow> [fk @ ''.'' @ show_nat i])
     @ extractItems items (Suc i) fk"
  by pat_completeness auto
termination
  by (relation "measure (\<lambda>x. case x of
          Inl (Inl (v, p)) \<Rightarrow> 2 * size v
        | Inl (Inr (kvs, p)) \<Rightarrow> 2 * size (JObj kvs) - 1
        | Inr (Inl (xs, i, p)) \<Rightarrow> 2 * size (JArr xs) - 1
        | Inr (Inr (Inl (v, fk))) \<Rightarrow> 2 * size v + 1
        | Inr (Inr (Inr (items, i, fk))) \<Rightarrow> 2 * size (JArr items) - 1)") auto

datatype error = TypeError

definition extractAllKeys_top :: "jv \<Rightarrow> error + string list" where
  "extractAllKeys_top obj = (if obj = JNull then Inl TypeError else Inr (extractAllKeys obj []))"

section \<open>Configuration, findings and the score\<close>

text \<open>
  The configuration object of \<^verbatim>\<open>gradeLanguageImplementation\<close>. A numeric property
  that the caller did not supply is \<open>None\<close>.
\<close>

record config =
  translationFile :: string
  sourcePattern :: string
  ignorePattern :: string
  minimumScore :: "rat option"
  missingKeyWeight :: "rat option"
  hardcodedWeight :: "rat option"
  malformedWeight :: "rat option"
  unusedKeyWeight :: "rat option"

text \<open>The four lists of the report (languageGrader.js, lines 58-64).\<close>

record findings =
  missingKeys :: "jsobj list"
  hardcodedStrings :: "jsobj list"
  unusedKeys :: "string list"
  malformedKeys :: "jsobj list"

text \<open>
  \<^verbatim>\<open>x || d\<close> for an optional number \<open>x\<close>: the default \<open>d\<close> is taken when \<open>x\<close> is
  absent and also when it is the falsy number 0.
\<close>

definition or_default :: "rat option \<Rightarrow> rat \<Rightarrow> rat" where
  "or_default x d = (case x of None \<Rightarrow> d | Some v \<Rightarrow> if v \<noteq> 0 then v else d)"

text \<open>\<^verbatim>\<open>calculateScore(report, config)\<close>, languageGrader.js lines 231-250.\<close>

definition calculateScore :: "'a findings_scheme \<Rightarrow> 'b config_scheme \<Rightarrow> rat" where
  "calculateScore report cfg =
     (let w_missingKeys = or_default (missingKeyWeight cfg) 0.4;
          w_hardcodedStrings = or_default (hardcodedWeight cfg) 0.3;
          w_malformedKeys = or_default (malformedWeight cfg) 0.2;
          w_unusedKeys = or_default (unusedKeyWeight cfg) 0.1;
          p_missingKeys = of_nat (length (missingKeys report)) * w_missingKeys;
          p_hardcodedStrings = of_nat (length (hardcodedStrings report)) * w_hardcodedStrings;
          p_malformedKeys = of_nat (length (malformedKeys report)) * w_malformedKeys;
          p_unusedKeys = of_nat (length (unusedKeys report)) * w_unusedKeys;
          totalPenalty = foldl (\<lambda>sum penalty. sum + penalty) 0
            [p_missingKeys, p_hardcodedStrings, p_malformedKeys, p_unusedKeys];
          maxPossibleScore = 1
      in max 0 (maxPossibleScore - totalPenalty / 10))"

section \<open>Regular expressions\<close>

text \<open>
  The patterns of the grader are sequences of character classes, each under a quantifier,
  with one capture group and the assertions \<^verbatim>\<open>^\<close> and \<^verbatim>\<open>$\<close>. A pattern is the
  list of its items; \<open>Rep c lo hi greedy\<close> repeats the class \<open>c\<close> between \<open>lo\<close> and
  \<open>hi\<close> times (\<open>None\<close>: no upper bound), greedily or lazily.
\<close>

datatype atom = Ch char | Rng char char | WS | Dig | NotNewline

fun atom_match :: "atom \<Rightarrow> char \<Rightarrow> bool" where
  "atom_match (Ch x) c = (c = x)"
| "atom_match (Rng lo hi) c = char_between lo hi c"
| "atom_match WS c = is_space c"
| "atom_match Dig c = is_digit c"
| "atom_match NotNewline c = ((of_char c :: nat) \<notin> {10, 13})"

datatype cls = In "atom list" | NotIn "atom list"

fun cls_match :: "cls \<Rightarrow> char \<Rightarrow> bool" where
  "cls_match (In as) c = list_ex (\<lambda>a. atom_match a c) as"
| "cls_match (NotIn as) c = (\<not> list_ex (\<lambda>a. atom_match a c) as)"

datatype item = Rep cls nat "nat option" bool | GroupOpen | GroupClose | Bol | Eol

definition one :: "cls \<Rightarrow> item" where
  "one c = Rep c 1 (Some 1) True"

definition lit :: "string \<Rightarrow> item list" where
  "lit w = map (\<lambda>x. one (In [Ch x])) w"

definition star :: "cls \<Rightarrow> item" where
  "star c = Rep c 0 None True"

definition plus :: "cls \<Rightarrow> item" where
  "plus c = Rep c 1 None True"

definition plus_lazy :: "cls \<Rightarrow> item" where
  "plus_lazy c = Rep c 1 None False"

text \<open>
  The backtracking matcher of ECMAScript 22.2.2, for these patterns: \<open>match_here\<close> tries
  the pattern at position \<open>i\<close> of \<open>s\<close>, and returns the bounds of the capture group and
  the end of the match. A greedy quantifier tries the longest repetition first, a lazy
  one the shortest; the rest of the pattern decides.
\<close>

fun first_some :: "(nat \<Rightarrow> 'a option) \<Rightarrow> nat list \<Rightarrow> 'a option" where
  "first_some f [] = None"
| "first_some f (k # ks) = (case f k of Some r \<Rightarrow> Some r | None \<Rightarrow> first_some f ks)"

fun match_here :: "item list \<Rightarrow> string \<Rightarrow> nat \<Rightarrow> nat \<times> nat \<Rightarrow> ((nat \<times> nat) \<times> nat) option" where
  "match_here [] s i g = Some (g, i)"
| "match_here (GroupOpen # r) s i g = match_here r s i (i, snd g)"
| "match_here (GroupClose # r) s i g = match_here r s i (fst g, i)"
| "match_here (Bol # r) s i g = (if i = 0 then match_here r s i g else None)"
| "match_here (Eol # r) s i g = (if i = length s then match_here r s i g else None)"
| "match_here (Rep c lo hi greedy # r) s i g =
     (let n = length (takeWhile (cls_match c) (drop i s));
          m = (case hi of None \<Rightarrow> n | Some h \<Rightarrow> min h n)
      in if m < lo then None
         else first_some (\<lambda>k. match_here r s (i + k) g)
                (if greedy then rev [lo..<Suc m] else [lo..<Suc m]))"

text \<open>
  \<^verbatim>\<open>regex.exec(s)\<close> with \<^verbatim>\<open>regex.lastIndex = from\<close> (ECMAScript 22.2.7.2): the first
  position from \<open>from\<close> on where the pattern matches. The result holds
  \<^verbatim>\<open>match.index\<close>, the end of the match (the new \<^verbatim>\<open>lastIndex\<close> of a global
  regex) and \<^verbatim>\<open>match[1]\<close>.
\<close>

record regmatch =
  m_index :: nat
  m_end :: nat
  m_group :: string

definition regexp_exec :: "item list \<Rightarrow> string \<Rightarrow> nat \<Rightarrow> regmatch option" where
  "regexp_exec R s from =
     (if length s < from then None
      else first_some
        (\<lambda>i. case match_here R s i (0, 0) of
               None \<Rightarrow> None
             | Some (g, e) \<Rightarrow>
                 Some \<lparr>m_index = i, m_end = e, m_group = take (snd g - fst g) (drop (fst g) s)\<rparr>)
        [from..<Suc (length s)])"

text \<open>\<^verbatim>\<open>regex.test(s)\<close> for a regex without the global flag.\<close>

definition regexp_test :: "item list \<Rightarrow> string \<Rightarrow> bool" where
  "regexp_test R s = (regexp_exec R s 0 \<noteq> None)"

text \<open>
  The loop \<^verbatim>\<open>while ((match = REGEX.exec(code)) !== null) { body }\<close> over a global regex,
  with the state of the body passed along. \<^verbatim>\<open>exec\<close> leaves \<^verbatim>\<open>lastIndex\<close> at the
  end of the match; a match that ends where the search began would be found again for
  ever, and the loop does not return: the value \<open>None\<close>.
\<close>

function while_exec ::
  "item list \<Rightarrow> string \<Rightarrow> (regmatch \<Rightarrow> 'st \<Rightarrow> 'st) \<Rightarrow> nat \<Rightarrow> 'st \<Rightarrow> 'st option" where
  "while_exec R code body lastIndex st =
     (case regexp_exec R code lastIndex of
        None \<Rightarrow> Some st
      | Some m \<Rightarrow>
          if lastIndex < m_end m then while_exec R code body (m_end m) (body m st)
          else None)"
  by pat_completeness auto
termination
  by (relation "measure (\<lambda>(R, code, body, lastIndex, st). Suc (length code) - lastIndex)")
    (auto simp: regexp_exec_def split: if_splits)

declare while_exec.simps [simp del]

text \<open>The two patterns of \<^verbatim>\<open>gradeLanguageImplementation\<close> (lines 87-88).\<close>

definition quotes :: "atom list" where
  "quotes = [Ch (CHR 0x27), Ch (CHR 0x22), Ch (CHR 0x60)]"

definition I18N_REGEX :: "item list" where
  "I18N_REGEX =
     lit ''i18n.t('' @ [one (In quotes), GroupOpen, plus (NotIn quotes), GroupClose, one (In quotes)]
     @ lit '')''"

definition HARDCODED_TEXT_REGEX :: "item list" where
  "HARDCODED_TEXT_REGEX =
     [one (In [Ch CHR ''>'']), star (In [WS]), GroupOpen,
      one (In [Rng CHR ''A'' CHR ''Z'', Rng CHR ''a'' CHR ''z'']),
      plus_lazy (NotIn [Ch CHR ''<'', Ch CHR ''{'']), GroupClose,
      star (In [WS]), one (In [Ch CHR ''<''])]"

section \<open>HardcodedTextClassifier\<close>

text \<open>\<^verbatim>\<open>shouldFlagAsHardcoded(text)\<close>, languageGrader.js lines 190-205.\<close>

definition excludePatterns :: "item list list" where
  "excludePatterns =
     [[Bol, one (In [Ch CHR ''{'', Ch CHR ''}'', Ch CHR ''$''])],
      [Bol, plus (In [Dig]), Eol],
      [Bol, Rep (In [Rng CHR ''a'' CHR ''z'']) 1 (Some 3) True, Eol],
      [Bol, one (In [Ch CHR ''#'']),
         plus (In [Rng CHR ''0'' CHR ''9'', Rng CHR ''a'' CHR ''f'', Rng CHR ''A'' CHR ''F'']), Eol],
      [Bol, plus (In [Rng CHR ''A'' CHR ''Z'', Ch CHR ''_'']), Eol],
      Bol # lit ''className'' @ [Eol],
      Bol # lit ''testID'' @ [Eol]]"

definition shouldFlagAsHardcoded :: "string \<Rightarrow> bool" where
  "shouldFlagAsHardcoded text \<longleftrightarrow>
     length text > 3 \<and>
     \<not> list_ex (\<lambda>pattern. regexp_test pattern text) excludePatterns \<and>
     \<not> regexp_test [Bol, star (In [WS]), Eol] text"

section \<open>LanguageGrader\<close>

text \<open>
  The collaborators of \<^verbatim>\<open>gradeLanguageImplementation\<close> are parameters: the file system
  (\<^verbatim>\<open>fs.existsSync\<close>, \<^verbatim>\<open>fs.readFileSync\<close>), \<^verbatim>\<open>JSON.parse\<close> and
  \<^verbatim>\<open>glob.sync\<close> (pattern and ignore pattern to the list of paths). A call that throws
  returns \<open>Inl\<close> with the message of the error. The calls of \<^verbatim>\<open>context.log\<close>
  write to the log of the host and do not change the result; they are left out.
\<close>

record env =
  existsSync :: "string \<Rightarrow> bool"
  readFileSync :: "string \<Rightarrow> string + string"
  JSON_parse :: "string \<Rightarrow> string + jv"
  glob_sync :: "string \<Rightarrow> string \<Rightarrow> string list"

text \<open>
  The state of the scan: the lists of the report and the set \<^verbatim>\<open>usedKeys\<close>, a
  JavaScript \<^verbatim>\<open>Set\<close>, kept as the list of its elements in insertion order.
\<close>

record scan = findings +
  usedKeys :: "string list"

definition set_add :: "string \<Rightarrow> string list \<Rightarrow> string list" where
  "set_add x xs = (if x \<in> set xs then xs else xs @ [x])"

record summary =
  filesScanned :: nat
  totalKeys :: nat
  usedKeysSize :: nat
  missingKeysCount :: nat
  hardcodedStringsCount :: nat
  unusedKeysCount :: nat
  malformedKeysCount :: nat
  summaryScore :: rat

record report = findings +
  summary :: summary

datatype report_value = ErrorReport string | FullReport report

record grade_result =
  success :: bool
  score :: rat
  report :: report_value

text \<open>Lines 66-84: loading the translation file.\<close>

definition load_translations :: "env \<Rightarrow> 'a config_scheme \<Rightarrow> string + jv" where
  "load_translations e cfg =
     (if existsSync e (translationFile cfg)
      then (case readFileSync e (translationFile cfg) of
              Inl message \<Rightarrow> Inl message
            | Inr data \<Rightarrow> JSON_parse e data)
      else Inl (''Translation file not found: '' @ translationFile cfg))"

text \<open>Lines 107-124: the body of the loop over the matches of \<open>I18N_REGEX\<close>.\<close>

definition i18n_body :: "jv \<Rightarrow> string \<Rightarrow> regmatch \<Rightarrow> scan \<Rightarrow> scan" where
  "i18n_body translations file match st =
     (let key = m_group match;
          st1 = st\<lparr>usedKeys := set_add key (usedKeys st)\<rparr>;
          st2 = (if \<not> truthy (resolveKey translations key)
                 then st1\<lparr>missingKeys := missingKeys st1 @ [[(''file'', JStr file), (''key'', JStr key)]]\<rparr>
                 else st1)
      in if CHR ''['' \<in> set key \<and> CHR '']'' \<in> set key
         then st2\<lparr>malformedKeys := malformedKeys st2 @
                [[(''file'', JStr file), (''key'', JStr key),
                  (''issue'', JStr ''Use dot notation instead of bracket notation'')]]\<rparr>
         else st2)"

text \<open>Lines 128-133: the body of the loop over the matches of \<open>HARDCODED_TEXT_REGEX\<close>.\<close>

definition hardcoded_body :: "string \<Rightarrow> regmatch \<Rightarrow> scan \<Rightarrow> scan" where
  "hardcoded_body file hcMatch st =
     (let text = trim (m_group hcMatch)
      in if shouldFlagAsHardcoded text
         then st\<lparr>hardcodedStrings := hardcodedStrings st @ [[(''file'', JStr file), (''text'', JStr text)]]\<rparr>
         else st)"

text \<open>
  Lines 101-138: one file. A file that cannot be read is logged and skipped
  (the \<^verbatim>\<open>catch\<close>).
\<close>

definition scan_file :: "jv \<Rightarrow> env \<Rightarrow> string \<Rightarrow> scan \<Rightarrow> scan option" where
  "scan_file translations e file st =
     (case readFileSync e file of
        Inl message \<Rightarrow> Some st
      | Inr code \<Rightarrow>
          (case while_exec I18N_REGEX code (i18n_body translations file) 0 st of
             None \<Rightarrow> None
           | Some st1 \<Rightarrow> while_exec HARDCODED_TEXT_REGEX code (hardcoded_body file) 0 st1))"

fun scan_files :: "jv \<Rightarrow> env \<Rightarrow> string list \<Rightarrow> scan \<Rightarrow> scan option" where
  "scan_files translations e [] st = Some st"
| "scan_files translations e (file # files) st =
     (case scan_file translations e file st of
        None \<Rightarrow> None
      | Some st1 \<Rightarrow> scan_files translations e files st1)"

definition empty_scan :: scan where
  "empty_scan = \<lparr>missingKeys = [], hardcodedStrings = [], unusedKeys = [], malformedKeys = [],
                 usedKeys = []\<rparr>"

text \<open>
  \<^verbatim>\<open>gradeLanguageImplementation(config, context)\<close>, lines 57-170. The result is
  \<open>None\<close> when the function does not return, \<open>Some (Inl err)\<close> when it throws, and
  \<open>Some (Inr result)\<close> when it returns \<open>result\<close>.
\<close>

definition gradeLanguageImplementation ::
  "env \<Rightarrow> config \<Rightarrow> (error + grade_result) option" where
  "gradeLanguageImplementation e cfg =
     (case load_translations e cfg of
        Inl message \<Rightarrow>
          Some (Inr \<lparr>success = False, score = 0,
                     report = ErrorReport (''Failed to load translation file: '' @ message)\<rparr>)
      | Inr translations \<Rightarrow>
          (let srcFiles = glob_sync e (sourcePattern cfg) (ignorePattern cfg)
           in case scan_files translations e srcFiles empty_scan of
                None \<Rightarrow> None
              | Some st \<Rightarrow>
                  (case extractAllKeys_top translations of
                     Inl err \<Rightarrow> Some (Inl err)
                   | Inr allTranslationKeys \<Rightarrow>
                       (let st1 = st\<lparr>unusedKeys := unusedKeys st @
                                    filter (\<lambda>key. key \<notin> set (usedKeys st)) allTranslationKeys\<rparr>;
                            score = calculateScore st1 cfg;
                            rep = \<lparr>missingKeys = missingKeys st1,
                                   hardcodedStrings = hardcodedStrings st1,
                                   unusedKeys = unusedKeys st1,
                                   malformedKeys = malformedKeys st1,
                                   summary =
                                     \<lparr>filesScanned = length srcFiles,
                                      totalKeys = length allTranslationKeys,
                                      usedKeysSize = length (usedKeys st),
                                      missingKeysCount = length (missingKeys st1),
                                      hardcodedStringsCount = length (hardcodedStrings st1),
                                      unusedKeysCount = length (unusedKeys st1),
                                      malformedKeysCount = length (malformedKeys st1),
                                      summaryScore = score\<rparr>\<rparr>;
                            success = (score \<ge> or_default (minimumScore cfg) 0.8)
                        in Some (Inr \<lparr>success = success, score = score,
                                      report = FullReport rep\<rparr>)))))"

section \<open>FileScanner\<close>

text \<open>
  The file scanner utility runs the same two patterns in \<^verbatim>\<open>analyzeI18nUsage\<close> and
  records the line of each match with \<^verbatim>\<open>getLineNumber\<close>:
  \<^verbatim>\<open>content.substring(0, index).split('\n').length\<close>.
\<close>

definition getLineNumber :: "string \<Rightarrow> nat \<Rightarrow> nat" where
  "getLineNumber content index = length (split_on (CHR 0x0A) (take index content))"

record i18n_analysis =
  analysis_usedKeys :: "jsobj list"
  analysis_hardcodedStrings :: "jsobj list"
  hasI18nImport :: bool
  keyCount :: nat
  hardcodedCount :: nat

definition usedKeys_body :: "string \<Rightarrow> regmatch \<Rightarrow> jsobj list \<Rightarrow> jsobj list" where
  "usedKeys_body content match used =
     used @ [[(''key'', JStr (m_group match)),
                  (''line'', JNum (of_nat (getLineNumber content (m_index match))))]]"

definition hardcodedStrings_body :: "string \<Rightarrow> regmatch \<Rightarrow> jsobj list \<Rightarrow> jsobj list" where
  "hardcodedStrings_body content match found =
     (let text = trim (m_group match)
      in if shouldFlagAsHardcoded text
         then found @
                [[(''text'', JStr text),
                  (''line'', JNum (of_nat (getLineNumber content (m_index match))))]]
         else found)"

definition analyzeI18nUsage :: "string \<Rightarrow> i18n_analysis option" where
  "analyzeI18nUsage content =
     (case while_exec I18N_REGEX content (usedKeys_body content) 0 [] of
        None \<Rightarrow> None
      | Some used \<Rightarrow>
          (case while_exec HARDCODED_TEXT_REGEX content (hardcodedStrings_body content) 0 [] of
             None \<Rightarrow> None
           | Some found \<Rightarrow>
               Some \<lparr>analysis_usedKeys = used,
                     analysis_hardcodedStrings = found,
                     hasI18nImport = regexp_test (lit ''import'' @ [star (In [NotNewline])] @ lit ''i18n'') content,
                     keyCount = length used,
                     hardcodedCount = length found\<rparr>))"

section \<open>Notions used in the statements\<close>

subsection \<open>Inputs for the scoring model\<close>


text \<open>
  Two fixed inputs used in the evaluations below: a report without findings, and the
  configuration that the HTTP handler builds from an empty request (lines 16-22).
\<close>

definition no_findings :: findings where
  "no_findings = \<lparr>missingKeys = [], hardcodedStrings = [], unusedKeys = [], malformedKeys = []\<rparr>"

definition default_config :: config where
  "default_config =
     \<lparr>translationFile = ''./store/en.json'', sourcePattern = ''./**/*.{js,jsx,ts,tsx}'',
      ignorePattern = ''node_modules/**'', minimumScore = None, missingKeyWeight = None,
      hardcodedWeight = None, malformedWeight = None, unusedKeyWeight = None\<rparr>"

subsection \<open>Paths of a document\<close>



fun leaf_paths :: "jv \<Rightarrow> string list list"
  and entry_paths :: "(string \<times> jv) list \<Rightarrow> string list list"
  and item_paths :: "jv list \<Rightarrow> nat \<Rightarrow> string list list"
where
  "leaf_paths (JObj kvs) = entry_paths kvs"
| "leaf_paths (JArr xs) = item_paths xs 0"
| "leaf_paths v = [[]]"
| "entry_paths [] = []"
| "entry_paths ((k, v) # rest) = map ((#) k) (leaf_paths v) @ entry_paths rest"
| "item_paths [] i = []"
| "item_paths (x # xs) i = map ((#) (show_nat i)) (leaf_paths x) @ item_paths xs (Suc i)"






subsection \<open>The matches of a pass\<close>

text \<open>
  The list of the matches that the loop \<open>while_exec\<close> meets, in order: the loop is
  the fold of its body over this list (lemma \<open>while_exec_fold\<close> below).
\<close>

function exec_all :: "item list \<Rightarrow> string \<Rightarrow> nat \<Rightarrow> regmatch list option" where
  "exec_all R code lastIndex =
     (case regexp_exec R code lastIndex of
        None \<Rightarrow> Some []
      | Some m \<Rightarrow>
          if lastIndex < m_end m then map_option ((#) m) (exec_all R code (m_end m))
          else None)"
  by pat_completeness auto
termination
  by (relation "measure (\<lambda>(R, code, lastIndex). Suc (length code) - lastIndex)")
    (simp_all add: regexp_exec_def split: if_splits)

declare exec_all.simps [simp del]

subsection \<open>Character classes of the classifier\<close>

definition is_lower :: "char \<Rightarrow> bool" where
  "is_lower c = char_between CHR ''a'' CHR ''z'' c"

definition is_upper :: "char \<Rightarrow> bool" where
  "is_upper c = char_between CHR ''A'' CHR ''Z'' c"

definition is_letter :: "char \<Rightarrow> bool" where
  "is_letter c \<longleftrightarrow> is_upper c \<or> is_lower c"

definition is_hex :: "char \<Rightarrow> bool" where
  "is_hex c \<longleftrightarrow> is_digit c \<or> char_between CHR ''a'' CHR ''f'' c \<or> char_between CHR ''A'' CHR ''F'' c"

subsection \<open>What one file contributes\<close>

text \<open>
  The entries that the two loops append for one file, as functions of the matches of
  the file: \<open>key_matches\<close> and \<open>text_matches\<close> are the matches of the two passes.
\<close>

definition key_matches :: "string \<Rightarrow> regmatch list" where
  "key_matches code = (case exec_all I18N_REGEX code 0 of None \<Rightarrow> [] | Some ms \<Rightarrow> ms)"

definition text_matches :: "string \<Rightarrow> regmatch list" where
  "text_matches code = (case exec_all HARDCODED_TEXT_REGEX code 0 of None \<Rightarrow> [] | Some ms \<Rightarrow> ms)"

definition missing_of :: "jv \<Rightarrow> string \<Rightarrow> string \<Rightarrow> jsobj list" where
  "missing_of translations file code =
     map (\<lambda>m. [(''file'', JStr file), (''key'', JStr (m_group m))])
       (filter (\<lambda>m. \<not> truthy (resolveKey translations (m_group m))) (key_matches code))"

definition malformed_of :: "string \<Rightarrow> string \<Rightarrow> jsobj list" where
  "malformed_of file code =
     map (\<lambda>m. [(''file'', JStr file), (''key'', JStr (m_group m)),
                (''issue'', JStr ''Use dot notation instead of bracket notation'')])
       (filter (\<lambda>m. CHR ''['' \<in> set (m_group m) \<and> CHR '']'' \<in> set (m_group m)) (key_matches code))"

definition hardcoded_of :: "string \<Rightarrow> string \<Rightarrow> jsobj list" where
  "hardcoded_of file code =
     map (\<lambda>m. [(''file'', JStr file), (''text'', JStr (trim (m_group m)))])
       (filter (\<lambda>m. shouldFlagAsHardcoded (trim (m_group m))) (text_matches code))"

definition add_keys :: "string list \<Rightarrow> string list \<Rightarrow> string list" where
  "add_keys used keys = foldl (\<lambda>u k. set_add k u) used keys"

definition slice :: "string \<Rightarrow> nat \<Rightarrow> nat \<Rightarrow> string" where
  "slice s i j = take (j - i) (drop i s)"

text \<open>The same per file path, with the file read from the environment.\<close>

definition file_keys :: "env \<Rightarrow> string \<Rightarrow> string list" where
  "file_keys e file =
     (case readFileSync e file of Inl message \<Rightarrow> [] | Inr code \<Rightarrow> map m_group (key_matches code))"

definition file_missing :: "jv \<Rightarrow> env \<Rightarrow> string \<Rightarrow> jsobj list" where
  "file_missing translations e file =
     (case readFileSync e file of Inl message \<Rightarrow> [] | Inr code \<Rightarrow> missing_of translations file code)"

definition file_malformed :: "env \<Rightarrow> string \<Rightarrow> jsobj list" where
  "file_malformed e file =
     (case readFileSync e file of Inl message \<Rightarrow> [] | Inr code \<Rightarrow> malformed_of file code)"

definition file_hardcoded :: "env \<Rightarrow> string \<Rightarrow> jsobj list" where
  "file_hardcoded e file =
     (case readFileSync e file of Inl message \<Rightarrow> [] | Inr code \<Rightarrow> hardcoded_of file code)"

subsection \<open>The findings of a run\<close>

text \<open>
  The state after the scan of a list of files, and after the unused keys are added: what
  \<open>gradeLanguageImplementation\<close> reports for a document that was loaded (lemma
  \<open>grade_loaded\<close> below).
\<close>

definition scanned :: "jv \<Rightarrow> env \<Rightarrow> string list \<Rightarrow> scan" where
  "scanned translations e files =
     \<lparr>missingKeys = concat (map (file_missing translations e) files),
      hardcodedStrings = concat (map (file_hardcoded e) files),
      unusedKeys = [],
      malformedKeys = concat (map (file_malformed e) files),
      usedKeys = add_keys [] (concat (map (file_keys e) files))\<rparr>"

definition final_findings :: "jv \<Rightarrow> env \<Rightarrow> string list \<Rightarrow> scan" where
  "final_findings translations e files =
     (scanned translations e files)
       \<lparr>unusedKeys := filter (\<lambda>key. key \<notin> set (usedKeys (scanned translations e files)))
                        (extractAllKeys translations [])\<rparr>"

definition graded :: "jv \<Rightarrow> env \<Rightarrow> config \<Rightarrow> grade_result" where
  "graded translations e cfg =
     (let files = glob_sync e (sourcePattern cfg) (ignorePattern cfg);
          ff = final_findings translations e files
      in \<lparr>success = (calculateScore ff cfg \<ge> or_default (minimumScore cfg) 0.8),
          score = calculateScore ff cfg,
          report = FullReport
            \<lparr>missingKeys = missingKeys ff, hardcodedStrings = hardcodedStrings ff,
             unusedKeys = unusedKeys ff, malformedKeys = malformedKeys ff,
             summary =
               \<lparr>filesScanned = length files,
                totalKeys = length (extractAllKeys translations []),
                usedKeysSize = length (usedKeys ff),
                missingKeysCount = length (missingKeys ff),
                hardcodedStringsCount = length (hardcodedStrings ff),
                unusedKeysCount = length (unusedKeys ff),
                malformedKeysCount = length (malformedKeys ff),
                summaryScore = calculateScore ff cfg\<rparr>\<rparr>\<rparr>)"

definition load_error :: "string \<Rightarrow> grade_result" where
  "load_error message =
     \<lparr>success = False, score = 0,
      report = ErrorReport (''Failed to load translation file: '' @ message)\<rparr>"

subsection \<open>Sample runs\<close>

text \<open>
  A small environment for the evaluations below: a translation file \<^verbatim>\<open>./en.json\<close>
  whose parsed content is \<open>sample_doc\<close>, and one source file \<^verbatim>\<open>a.js\<close>.
\<close>

definition sample_doc :: jv where
  "sample_doc = JObj [(''title'', JStr ''T''), (''empty'', JStr '''')]"

definition sample_source :: string where
  "sample_source = ''<b>Hello</b>'' @ [CHR 0x0A] @ ''i18n.t('empty')''"

definition sample_env :: env where
  "sample_env =
     \<lparr>existsSync = (\<lambda>path. path = ''./en.json''),
      readFileSync = (\<lambda>path. if path = ''./en.json'' then Inr ''{}''
                               else if path = ''a.js'' then Inr sample_source
                               else Inl ''ENOENT''),
      JSON_parse = (\<lambda>data. if data = ''{}'' then Inr sample_doc else Inl ''Unexpected token''),
      glob_sync = (\<lambda>pattern ignore. [''a.js''])\<rparr>"

definition sample_config :: config where
  "sample_config = default_config\<lparr>translationFile := ''./en.json''\<rparr>"

definition absent_env :: env where
  "absent_env = sample_env\<lparr>existsSync := (\<lambda>path. False)\<rparr>"

definition unparseable_env :: env where
  "unparseable_env = sample_env\<lparr>JSON_parse := (\<lambda>data. Inl ''Unexpected end of JSON input'')\<rparr>"

text \<open>The value that the grader returns for the sample run (lemma \<open>sample_run\<close>).\<close>

definition sample_report :: report where
  "sample_report =
     \<lparr>missingKeys = [[(''file'', JStr ''a.js''), (''key'', JStr ''empty'')]],
      hardcodedStrings = [[(''file'', JStr ''a.js''), (''text'', JStr ''Hello'')]],
      unusedKeys = [''title''], malformedKeys = [],
      summary =
        \<lparr>filesScanned = 1, totalKeys = 2, usedKeysSize = 1,
         missingKeysCount = 1, hardcodedStringsCount = 1,
         unusedKeysCount = 1, malformedKeysCount = 0,
         summaryScore = 0.92\<rparr>\<rparr>"

definition sample_result :: grade_result where
  "sample_result = \<lparr>success = True, score = 0.92, report = FullReport sample_report\<rparr>"

subsection \<open>Results equal up to the order of the findings\<close>

fun same_report :: "report_value \<Rightarrow> report_value \<Rightarrow> bool" where
  "same_report (ErrorReport a) (ErrorReport b) = (a = b)"
| "same_report (FullReport r) (FullReport r') =
     (summary r = summary r'
      \<and> mset (missingKeys r) = mset (missingKeys r')
      \<and> mset (hardcodedStrings r) = mset (hardcodedStrings r')
      \<and> mset (unusedKeys r) = mset (unusedKeys r')
      \<and> mset (malformedKeys r) = mset (malformedKeys r'))"
| "same_report a b = False"

fun same_outcome :: "(error + grade_result) option \<Rightarrow> (error + grade_result) option \<Rightarrow> bool" where
  "same_outcome (Some (Inr r)) (Some (Inr r')) =
     (success r = success r' \<and> score r = score r' \<and> same_report (report r) (report r'))"
| "same_outcome (Some (Inl x)) (Some (Inl y)) = (x = y)"
| "same_outcome None None = True"
| "same_outcome a b = False"

text \<open>A second source file, and the two orders in which the two files can be found.\<close>

definition two_files_env :: env where
  "two_files_env =
     sample_env\<lparr>readFileSync :=
                   (\<lambda>path. if path = ''b.js'' then Inr ''i18n.t('x[0]')''
                            else readFileSync sample_env path),
                 glob_sync := (\<lambda>pattern ignore. [''a.js'', ''b.js''])\<rparr>"

definition two_files_env_reversed :: env where
  "two_files_env_reversed = two_files_env\<lparr>glob_sync := (\<lambda>pattern ignore. [''b.js'', ''a.js''])\<rparr>"

section \<open>Facts about numerals\<close>

lemma is_digit_iff: "is_digit c \<longleftrightarrow> 48 \<le> (of_char c :: nat) \<and> (of_char c :: nat) \<le> 57"
  by (simp add: is_digit_def char_between_def)

lemma is_digit_digit_of: "d < 10 \<Longrightarrow> is_digit (digit_of d)"
  by (simp add: is_digit_iff digit_of_def)

lemma digit_value_digit_of: "d < 10 \<Longrightarrow> digit_value (digit_of d) = d"
  by (simp add: digit_value_def is_digit_iff digit_of_def)




lemma show_nat_digits: "show_nat n \<noteq> [] \<and> list_all is_digit (show_nat n)"
proof (induction n rule: show_nat.induct)
  case (1 n)
  show ?case
  proof (cases "n < 10")
    case True
    then show ?thesis by (simp add: show_nat.simps [of n] is_digit_digit_of)
  next
    case False
    with 1 show ?thesis by (simp add: show_nat.simps [of n] is_digit_digit_of)
  qed
qed

lemma radix_value_snoc: "radix_value R (xs @ [c]) = R * radix_value R xs + digit_value c"
  by (simp add: radix_value_def)

lemma radix_value_show_nat: "radix_value 10 (show_nat n) = n"
proof (induction n rule: show_nat.induct)
  case (1 n)
  show ?case
  proof (cases "n < 10")
    case True
    then show ?thesis by (simp add: show_nat.simps [of n] radix_value_def digit_value_digit_of)
  next
    case False
    with 1 show ?thesis
      by (simp add: show_nat.simps [of n] radix_value_snoc digit_value_digit_of)
  qed
qed

lemma show_nat_inj: "show_nat a = show_nat b \<Longrightarrow> a = b"
  by (metis radix_value_show_nat)







section \<open>Extractor and resolver\<close>

lemma split_on_nonempty: "split_on c s \<noteq> []"
  by (induction s) (auto split: list.splits)



lemma split_on_segments: "p \<in> set (split_on c s) \<Longrightarrow> c \<notin> set p"
proof (induction s arbitrary: p)
  case Nil
  then show ?case by simp
next
  case (Cons x xs)
  obtain h t where r: "split_on c xs = h # t"
    using split_on_nonempty [of c xs] by (cases "split_on c xs") auto
  from Cons show ?case by (auto simp: r split: if_splits)
qed





lemma entry_paths_iff:
  "p \<in> set (entry_paths kvs) \<longleftrightarrow> (\<exists>k v q. (k, v) \<in> set kvs \<and> q \<in> set (leaf_paths v) \<and> p = k # q)"
  by (induction kvs) force+

lemma item_paths_iff:
  "p \<in> set (item_paths xs i) \<longleftrightarrow>
     (\<exists>j q. j < length xs \<and> q \<in> set (leaf_paths (xs ! j)) \<and> p = show_nat (i + j) # q)"
proof (induction xs arbitrary: i)
  case Nil
  then show ?case by simp
next
  case (Cons x xs)
  show ?case
  proof
    assume "p \<in> set (item_paths (x # xs) i)"
    then consider "p \<in> (#) (show_nat i) ` set (leaf_paths x)" | "p \<in> set (item_paths xs (Suc i))"
      by auto
    then show "\<exists>j q. j < length (x # xs) \<and> q \<in> set (leaf_paths ((x # xs) ! j)) \<and> p = show_nat (i + j) # q"
    proof cases
      case 1
      then obtain q where "q \<in> set (leaf_paths x)" "p = show_nat i # q" by auto
      then show ?thesis by (intro exI [of _ 0] exI [of _ q]) simp
    next
      case 2
      then obtain j q where "j < length xs" "q \<in> set (leaf_paths (xs ! j))" "p = show_nat (Suc i + j) # q"
        using Cons.IH [of "Suc i"] by auto
      then show ?thesis by (intro exI [of _ "Suc j"] exI [of _ q]) simp
    qed
  next
    assume "\<exists>j q. j < length (x # xs) \<and> q \<in> set (leaf_paths ((x # xs) ! j)) \<and> p = show_nat (i + j) # q"
    then obtain j q where j: "j < length (x # xs)" "q \<in> set (leaf_paths ((x # xs) ! j))"
      "p = show_nat (i + j) # q" by blast
    show "p \<in> set (item_paths (x # xs) i)"
    proof (cases j)
      case 0
      with j show ?thesis by simp
    next
      case (Suc j')
      with j have "p \<in> set (item_paths xs (Suc i))"
        using Cons.IH [of "Suc i"] by auto
      then show ?thesis by simp
    qed
  qed
qed


lemma show_nat_nonempty [simp]: "show_nat n \<noteq> []"
  using show_nat_digits by blast


lemma resolve_parts_None [simp]: "resolve_parts None p = None"
  by (cases p) simp_all



lemma leaf_paths_iff:
  "p \<in> set (leaf_paths v) \<longleftrightarrow>
     (case v of
        JObj kvs \<Rightarrow> \<exists>k v' q. (k, v') \<in> set kvs \<and> q \<in> set (leaf_paths v') \<and> p = k # q
      | JArr xs \<Rightarrow> \<exists>j q. j < length xs \<and> q \<in> set (leaf_paths (xs ! j)) \<and> p = show_nat j # q
      | _ \<Rightarrow> p = [])"
  by (cases v) (simp_all add: entry_paths_iff item_paths_iff)












section \<open>Facts about the matcher\<close>

lemma first_some_SomeD: "first_some f ks = Some r \<Longrightarrow> \<exists>k\<in>set ks. f k = Some r"
  by (induction ks) (auto split: option.splits)

lemma first_some_None_iff: "first_some f ks = None \<longleftrightarrow> (\<forall>k\<in>set ks. f k = None)"
  by (induction ks) (auto split: option.splits)

lemma takeWhile_run:
  assumes "k \<le> length (takeWhile P (drop i s))"
  shows "i + k \<le> length s \<or> k = 0" and "\<forall>j<k. P (s ! (i + j))"
proof -
  have le: "length (takeWhile P (drop i s)) \<le> length s - i"
    using length_takeWhile_le [of P "drop i s"] by simp
  with assms show "i + k \<le> length s \<or> k = 0" by auto
  show "\<forall>j<k. P (s ! (i + j))"
  proof (intro allI impI)
    fix j assume j: "j < k"
    with assms have jl: "j < length (takeWhile P (drop i s))" by simp
    then have "takeWhile P (drop i s) ! j \<in> set (takeWhile P (drop i s))"
      by (rule nth_mem)
    then have "P (takeWhile P (drop i s) ! j)"
      by (rule set_takeWhileD [THEN conjunct2])
    moreover have "takeWhile P (drop i s) ! j = drop i s ! j"
      using jl by (rule takeWhile_nth)
    moreover have "i + j < length s" using jl le by simp
    ultimately show "P (s ! (i + j))" by (simp add: nth_drop)
  qed
qed

lemma match_here_RepD:
  assumes "match_here (Rep c lo hi gr # r) s i g = Some res"
  shows "\<exists>k. lo \<le> k \<and> k \<le> length (takeWhile (cls_match c) (drop i s))
            \<and> (case hi of None \<Rightarrow> True | Some h \<Rightarrow> k \<le> h)
            \<and> match_here r s (i + k) g = Some res"
proof -
  define n where "n = length (takeWhile (cls_match c) (drop i s))"
  define m where "m = (case hi of None \<Rightarrow> n | Some h \<Rightarrow> min h n)"
  from assms have "first_some (\<lambda>k. match_here r s (i + k) g)
      (if gr then rev [lo..<Suc m] else [lo..<Suc m]) = Some res"
    unfolding match_here.simps Let_def n_def [symmetric] m_def [symmetric]
    by (simp split: if_splits del: upt_Suc)
  from first_some_SomeD [OF this] obtain k where k: "lo \<le> k" "k \<le> m"
    and r: "match_here r s (i + k) g = Some res"
    by (auto split: if_splits)
  from k(2) have "k \<le> n" "case hi of None \<Rightarrow> True | Some h \<Rightarrow> k \<le> h"
    by (auto simp: m_def split: option.splits)
  with k(1) r show ?thesis unfolding n_def by blast
qed

lemma match_here_one:
  "match_here (one c # r) s i g =
     (if i < length s \<and> cls_match c (s ! i) then match_here r s (Suc i) g else None)"
proof (cases "i < length s")
  case True
  then have d: "drop i s = s ! i # drop (Suc i) s"
    by (simp add: Cons_nth_drop_Suc)
  show ?thesis
    using True by (simp add: one_def d Let_def split: option.splits)
next
  case False
  then show ?thesis by (simp add: one_def Let_def)
qed

lemma match_here_lit:
  "match_here (lit w @ r) s i g =
     (if take (length w) (drop i s) = w then match_here r s (i + length w) g else None)"
proof (induction w arbitrary: i)
  case Nil
  then show ?case by (simp add: lit_def)
next
  case (Cons x w)
  have l: "lit (x # w) @ r = one (In [Ch x]) # (lit w @ r)"
    by (simp add: lit_def)
  show ?case
  proof (cases "i < length s")
    case True
    then have d: "drop i s = s ! i # drop (Suc i) s"
      by (simp add: Cons_nth_drop_Suc)
    show ?thesis
      unfolding l match_here_one using True Cons [of "Suc i"] by (auto simp: d)
  next
    case False
    then show ?thesis unfolding l match_here_one by simp
  qed
qed

lemma match_here_bounds:
  "match_here R s i g = Some (g', e) \<Longrightarrow> i \<le> e \<and> (i \<le> length s \<longrightarrow> e \<le> length s)"
proof (induction R arbitrary: i g)
  case Nil
  then show ?case by simp
next
  case (Cons x R)
  show ?case
  proof (cases x)
    case (Rep c lo hi gr)
    from match_here_RepD [OF Cons.prems [unfolded Rep]] obtain k
      where k: "k \<le> length (takeWhile (cls_match c) (drop i s))"
        and r: "match_here R s (i + k) g = Some (g', e)" by blast
    from takeWhile_run(1) [OF k] Cons.IH [OF r] show ?thesis by auto
  next
    case GroupOpen
    with Cons show ?thesis by simp
  next
    case GroupClose
    with Cons show ?thesis by simp
  next
    case Bol
    with Cons show ?thesis by (simp split: if_splits)
  next
    case Eol
    with Cons show ?thesis by (simp split: if_splits)
  qed
qed

lemma regexp_exec_SomeD:
  assumes "regexp_exec R s from = Some m"
  shows "from \<le> m_index m" "m_index m \<le> length s" "m_index m \<le> m_end m" "m_end m \<le> length s"
    "\<exists>g. match_here R s (m_index m) (0, 0) = Some (g, m_end m)
         \<and> m_group m = take (snd g - fst g) (drop (fst g) s)"
proof -
  from assms have "first_some
        (\<lambda>i. case match_here R s i (0, 0) of
               None \<Rightarrow> None
             | Some (g, e) \<Rightarrow>
                 Some \<lparr>m_index = i, m_end = e, m_group = take (snd g - fst g) (drop (fst g) s)\<rparr>)
        [from..<Suc (length s)] = Some m"
    by (simp add: regexp_exec_def split: if_splits)
  from first_some_SomeD [OF this] obtain i g e where i: "from \<le> i" "i \<le> length s"
    and mh: "match_here R s i (0, 0) = Some (g, e)"
    and m: "m = \<lparr>m_index = i, m_end = e, m_group = take (snd g - fst g) (drop (fst g) s)\<rparr>"
    by (auto split: option.splits)
  from match_here_bounds [OF mh] i
  show "from \<le> m_index m" "m_index m \<le> length s" "m_index m \<le> m_end m" "m_end m \<le> length s"
    by (simp_all add: m)
  from mh show "\<exists>g. match_here R s (m_index m) (0, 0) = Some (g, m_end m)
         \<and> m_group m = take (snd g - fst g) (drop (fst g) s)"
    by (auto simp: m)
qed

lemma regexp_exec_progress:
  assumes "regexp_exec (one c # r) s from = Some m"
  shows "from < m_end m"
proof -
  from regexp_exec_SomeD(5) [OF assms] obtain g
    where "match_here (one c # r) s (m_index m) (0, 0) = Some (g, m_end m)" by blast
  then have "match_here r s (Suc (m_index m)) (0, 0) = Some (g, m_end m)"
    by (simp add: match_here_one split: if_splits)
  from match_here_bounds [OF this] regexp_exec_SomeD(1) [OF assms] show ?thesis by simp
qed

lemma I18N_REGEX_starts: "\<exists>r. I18N_REGEX = one (In [Ch CHR ''i'']) # r"
  by (simp add: I18N_REGEX_def lit_def)

lemma HARDCODED_TEXT_REGEX_starts: "\<exists>r. HARDCODED_TEXT_REGEX = one (In [Ch CHR ''>'']) # r"
  by (simp add: HARDCODED_TEXT_REGEX_def)

lemma exec_all_returns: "\<exists>ms. exec_all (one c # r) code i = Some ms"
proof (induction "one c # r" code i rule: exec_all.induct)
  case (1 code lastIndex)
  show ?case
  proof (cases "regexp_exec (one c # r) code lastIndex")
    case None
    then show ?thesis by (simp add: exec_all.simps [of _ code lastIndex])
  next
    case (Some m)
    from regexp_exec_progress [OF Some] have p: "lastIndex < m_end m" .
    from 1 [OF Some p] obtain ms where "exec_all (one c # r) code (m_end m) = Some ms" by blast
    with Some p show ?thesis by (simp add: exec_all.simps [of _ code lastIndex])
  qed
qed

lemma while_exec_fold:
  "while_exec R code body i st = map_option (foldl (\<lambda>st m. body m st) st) (exec_all R code i)"
proof (induction R code body i st rule: while_exec.induct)
  case (1 R code body lastIndex st)
  show ?case
  proof (cases "regexp_exec R code lastIndex")
    case None
    then show ?thesis
      by (simp add: while_exec.simps [of R code body lastIndex] exec_all.simps [of R code lastIndex])
  next
    case (Some m)
    show ?thesis
    proof (cases "lastIndex < m_end m")
      case True
      from 1 [OF Some True] Some True show ?thesis
        by (simp add: while_exec.simps [of R code body lastIndex] exec_all.simps [of R code lastIndex]
            option.map_comp comp_def)
    next
      case False
      with Some show ?thesis
        by (simp add: while_exec.simps [of R code body lastIndex] exec_all.simps [of R code lastIndex])
    qed
  qed
qed

lemma exec_all_member:
  "exec_all R code i = Some ms \<Longrightarrow> m \<in> set ms \<Longrightarrow> \<exists>from. regexp_exec R code from = Some m"
proof (induction R code i arbitrary: ms rule: exec_all.induct)
  case (1 R code lastIndex)
  show ?case
  proof (cases "regexp_exec R code lastIndex")
    case None
    with 1(2,3) show ?thesis by (simp add: exec_all.simps [of R code lastIndex])
  next
    case (Some m0)
    with 1(2) have p: "lastIndex < m_end m0"
      by (simp add: exec_all.simps [of R code lastIndex] split: if_splits)
    with 1(2) Some obtain ms' where ms': "exec_all R code (m_end m0) = Some ms'" "ms = m0 # ms'"
      by (auto simp: exec_all.simps [of R code lastIndex])
    from 1(3) ms'(2) consider "m = m0" | "m \<in> set ms'" by auto
    then show ?thesis
    proof cases
      case 1
      with Some show ?thesis by blast
    next
      case 2
      from "1.IH" [OF Some p ms'(1) 2] show ?thesis .
    qed
  qed
qed

section \<open>The classifier\<close>

lemma first_some_not_None_iff: "first_some f ks \<noteq> None \<longleftrightarrow> (\<exists>k\<in>set ks. f k \<noteq> None)"
  by (simp add: first_some_None_iff)

lemma match_here_Bol_later: "i \<noteq> 0 \<Longrightarrow> match_here (Bol # r) s i g = None"
  by simp

lemma regexp_test_Bol: "regexp_test (Bol # r) s \<longleftrightarrow> match_here r s 0 (0, 0) \<noteq> None"
proof -
  have up: "[0..<Suc (length s)] = 0 # [Suc 0..<Suc (length s)]"
    by (simp add: upt_rec)
  have later: "first_some
        (\<lambda>i. case match_here (Bol # r) s i (0, 0) of
               None \<Rightarrow> None
             | Some (g, e) \<Rightarrow>
                 Some \<lparr>m_index = i, m_end = e, m_group = take (snd g - fst g) (drop (fst g) s)\<rparr>)
        [Suc 0..<Suc (length s)] = None"
    unfolding first_some_None_iff by (auto simp del: upt_Suc)
  show ?thesis
    unfolding regexp_test_def regexp_exec_def up first_some.simps later
    by (auto split: option.splits)
qed

lemma match_here_Rep_iff:
  "match_here (Rep c lo hi gr # r) s i g \<noteq> None \<longleftrightarrow>
     (\<exists>k. lo \<le> k \<and> k \<le> length (takeWhile (cls_match c) (drop i s))
          \<and> (case hi of None \<Rightarrow> True | Some h \<Rightarrow> k \<le> h)
          \<and> match_here r s (i + k) g \<noteq> None)"
proof -
  define n where "n = length (takeWhile (cls_match c) (drop i s))"
  define m where "m = (case hi of None \<Rightarrow> n | Some h \<Rightarrow> min h n)"
  define ks where "ks = (if gr then rev [lo..<Suc m] else [lo..<Suc m])"
  have km: "\<And>k. k \<le> m \<longleftrightarrow> k \<le> n \<and> (case hi of None \<Rightarrow> True | Some h \<Rightarrow> k \<le> h)"
    by (auto simp: m_def split: option.splits)
  have ks: "set ks = {k. lo \<le> k \<and> k \<le> m}"
    unfolding ks_def by (auto simp del: upt_Suc)
  have eq: "match_here (Rep c lo hi gr # r) s i g =
      (if m < lo then None else first_some (\<lambda>k. match_here r s (i + k) g) ks)"
    unfolding match_here.simps Let_def n_def [symmetric] m_def [symmetric] ks_def ..
  have "match_here (Rep c lo hi gr # r) s i g \<noteq> None \<longleftrightarrow>
      \<not> m < lo \<and> first_some (\<lambda>k. match_here r s (i + k) g) ks \<noteq> None"
    unfolding eq by simp
  also have "\<dots> \<longleftrightarrow> \<not> m < lo \<and> (\<exists>k\<in>set ks. match_here r s (i + k) g \<noteq> None)"
    unfolding first_some_not_None_iff ..
  also have "\<dots> \<longleftrightarrow> (\<exists>k. lo \<le> k \<and> k \<le> m \<and> match_here r s (i + k) g \<noteq> None)"
    unfolding ks by auto
  finally show ?thesis unfolding km n_def by blast
qed

lemma match_here_one_iff:
  "match_here (one c # r) s i g \<noteq> None \<longleftrightarrow>
     i < length s \<and> cls_match c (s ! i) \<and> match_here r s (Suc i) g \<noteq> None"
  unfolding match_here_one by auto

lemma match_here_lit_iff:
  "match_here (lit w @ r) s i g \<noteq> None \<longleftrightarrow>
     take (length w) (drop i s) = w \<and> match_here r s (i + length w) g \<noteq> None"
  unfolding match_here_lit by auto

lemma match_here_Eol: "match_here [Eol] s j g \<noteq> None \<longleftrightarrow> j = length s"
  by simp

lemma takeWhile_full: "length (takeWhile P xs) = length xs \<longleftrightarrow> list_all P xs"
  by (induction xs) (auto simp: list_all_iff dest: length_takeWhile_le [THEN order_trans [rotated]])

lemma match_here_Rep_Eol:
  "match_here [Rep c lo hi gr, Eol] s i g \<noteq> None \<longleftrightarrow>
     i \<le> length s \<and> list_all (cls_match c) (drop i s) \<and> lo \<le> length s - i
     \<and> (case hi of None \<Rightarrow> True | Some h \<Rightarrow> length s - i \<le> h)"
proof -
  have le: "length (takeWhile (cls_match c) (drop i s)) \<le> length s - i"
    using length_takeWhile_le [of "cls_match c" "drop i s"] by simp
  have full: "length s - i \<le> length (takeWhile (cls_match c) (drop i s))
      \<longleftrightarrow> list_all (cls_match c) (drop i s)"
    using takeWhile_full [of "cls_match c" "drop i s"] le by auto
  have "match_here [Rep c lo hi gr, Eol] s i g \<noteq> None \<longleftrightarrow>
      (\<exists>k. lo \<le> k \<and> k \<le> length (takeWhile (cls_match c) (drop i s))
          \<and> (case hi of None \<Rightarrow> True | Some h \<Rightarrow> k \<le> h) \<and> i + k = length s)"
    unfolding match_here_Rep_iff match_here_Eol ..
  also have "\<dots> \<longleftrightarrow> i \<le> length s \<and> lo \<le> length s - i
      \<and> length s - i \<le> length (takeWhile (cls_match c) (drop i s))
      \<and> (case hi of None \<Rightarrow> True | Some h \<Rightarrow> length s - i \<le> h)"
  proof
    assume "\<exists>k. lo \<le> k \<and> k \<le> length (takeWhile (cls_match c) (drop i s))
          \<and> (case hi of None \<Rightarrow> True | Some h \<Rightarrow> k \<le> h) \<and> i + k = length s"
    then obtain k where k: "lo \<le> k" "k \<le> length (takeWhile (cls_match c) (drop i s))"
      "case hi of None \<Rightarrow> True | Some h \<Rightarrow> k \<le> h" "i + k = length s" by blast
    from k(4) have "k = length s - i" "i \<le> length s" by simp_all
    with k show "i \<le> length s \<and> lo \<le> length s - i
      \<and> length s - i \<le> length (takeWhile (cls_match c) (drop i s))
      \<and> (case hi of None \<Rightarrow> True | Some h \<Rightarrow> length s - i \<le> h)"
      by (auto split: option.splits)
  next
    assume a: "i \<le> length s \<and> lo \<le> length s - i
      \<and> length s - i \<le> length (takeWhile (cls_match c) (drop i s))
      \<and> (case hi of None \<Rightarrow> True | Some h \<Rightarrow> length s - i \<le> h)"
    show "\<exists>k. lo \<le> k \<and> k \<le> length (takeWhile (cls_match c) (drop i s))
          \<and> (case hi of None \<Rightarrow> True | Some h \<Rightarrow> k \<le> h) \<and> i + k = length s"
      using a by (intro exI [of _ "length s - i"]) simp
  qed
  finally show ?thesis unfolding full by blast
qed

lemma cls_digit: "cls_match (In [Dig]) = is_digit"
  by (rule ext) simp

lemma cls_lower: "cls_match (In [Rng CHR ''a'' CHR ''z'']) = is_lower"
  by (rule ext) (simp add: is_lower_def)

lemma cls_hex:
  "cls_match (In [Rng CHR ''0'' CHR ''9'', Rng CHR ''a'' CHR ''f'', Rng CHR ''A'' CHR ''F'']) = is_hex"
  by (rule ext) (simp add: is_hex_def is_digit_def)

lemma cls_constant:
  "cls_match (In [Rng CHR ''A'' CHR ''Z'', Ch CHR ''_'']) = (\<lambda>c. is_upper c \<or> c = CHR ''_'')"
  by (rule ext) (simp add: is_upper_def)

lemma cls_space: "cls_match (In [WS]) = is_space"
  by (rule ext) simp

lemma cls_letter: "cls_match (In [Rng CHR ''A'' CHR ''Z'', Rng CHR ''a'' CHR ''z'']) = is_letter"
  by (rule ext) (simp add: is_letter_def is_upper_def is_lower_def)

lemma test_braces:
  "regexp_test [Bol, one (In [Ch CHR ''{'', Ch CHR ''}'', Ch CHR ''$''])] text \<longleftrightarrow>
     take 1 text = ''{'' \<or> take 1 text = ''}'' \<or> take 1 text = ''$''"
  unfolding regexp_test_Bol match_here_one_iff by (cases "text") auto

lemma test_digits: "regexp_test [Bol, plus (In [Dig]), Eol] text \<longleftrightarrow> is_digits text"
  unfolding regexp_test_Bol plus_def match_here_Rep_Eol cls_digit is_digits_def
  by (cases "text") simp_all

lemma test_short_code:
  "regexp_test [Bol, Rep (In [Rng CHR ''a'' CHR ''z'']) 1 (Some 3) True, Eol] text \<longleftrightarrow>
     1 \<le> length text \<and> length text \<le> 3 \<and> list_all is_lower text"
  unfolding regexp_test_Bol match_here_Rep_Eol cls_lower by auto

lemma test_hex_color:
  "regexp_test [Bol, one (In [Ch CHR ''#'']),
      plus (In [Rng CHR ''0'' CHR ''9'', Rng CHR ''a'' CHR ''f'', Rng CHR ''A'' CHR ''F'']), Eol] text \<longleftrightarrow>
     take 1 text = ''#'' \<and> drop 1 text \<noteq> [] \<and> list_all is_hex (drop 1 text)"
proof (cases "text")
  case Nil
  then show ?thesis unfolding regexp_test_Bol match_here_one_iff by simp
next
  case (Cons x r)
  show ?thesis
    unfolding regexp_test_Bol match_here_one_iff plus_def match_here_Rep_Eol cls_hex Cons
    by (cases r) auto
qed

lemma test_constant:
  "regexp_test [Bol, plus (In [Rng CHR ''A'' CHR ''Z'', Ch CHR ''_'']), Eol] text \<longleftrightarrow>
     text \<noteq> [] \<and> list_all (\<lambda>c. is_upper c \<or> c = CHR ''_'') text"
  unfolding regexp_test_Bol plus_def match_here_Rep_Eol cls_constant
  by (cases "text") simp_all

lemma test_exact: "regexp_test (Bol # lit w @ [Eol]) text \<longleftrightarrow> text = w"
proof -
  have "take (length w) text = w \<and> length w = length text \<longleftrightarrow> text = w"
    by auto
  then show ?thesis
    unfolding regexp_test_Bol match_here_lit_iff match_here_Eol by simp
qed

lemma test_blank: "regexp_test [Bol, star (In [WS]), Eol] text \<longleftrightarrow> list_all is_space text"
  unfolding regexp_test_Bol star_def match_here_Rep_Eol cls_space by simp

text \<open>
  C6 (as amended): the classifier flags a text exactly when its length (not its trimmed
  length; the callers pass the trimmed capture) is greater than 3, it is not all white
  space, and none of the seven exclusions holds. The four examples of the specification
  follow.
\<close>

theorem shouldFlagAsHardcoded_iff:
  "(shouldFlagAsHardcoded text \<longleftrightarrow>
      length text > 3 \<and> \<not> list_all is_space text
      \<and> \<not> (take 1 text = ''{'' \<or> take 1 text = ''}'' \<or> take 1 text = ''$'')
      \<and> \<not> is_digits text
      \<and> \<not> (1 \<le> length text \<and> length text \<le> 3 \<and> list_all is_lower text)
      \<and> \<not> (take 1 text = ''#'' \<and> drop 1 text \<noteq> [] \<and> list_all is_hex (drop 1 text))
      \<and> \<not> (text \<noteq> [] \<and> list_all (\<lambda>c. is_upper c \<or> c = CHR ''_'') text)
      \<and> text \<noteq> ''className'' \<and> text \<noteq> ''testID'')
   \<and> \<not> shouldFlagAsHardcoded ''Hi''
   \<and> \<not> shouldFlagAsHardcoded ''#fff''
   \<and> \<not> shouldFlagAsHardcoded ''PRICE''
   \<and> shouldFlagAsHardcoded ''Hello World''"
proof -
  have iff: "shouldFlagAsHardcoded text \<longleftrightarrow>
      length text > 3 \<and> \<not> list_all is_space text
      \<and> \<not> (take 1 text = ''{'' \<or> take 1 text = ''}'' \<or> take 1 text = ''$'')
      \<and> \<not> is_digits text
      \<and> \<not> (1 \<le> length text \<and> length text \<le> 3 \<and> list_all is_lower text)
      \<and> \<not> (take 1 text = ''#'' \<and> drop 1 text \<noteq> [] \<and> list_all is_hex (drop 1 text))
      \<and> \<not> (text \<noteq> [] \<and> list_all (\<lambda>c. is_upper c \<or> c = CHR ''_'') text)
      \<and> text \<noteq> ''className'' \<and> text \<noteq> ''testID''"
    unfolding shouldFlagAsHardcoded_def excludePatterns_def list_ex_Cons_iff list_ex_Nil_iff
      test_braces test_digits test_short_code test_hex_color test_constant test_exact test_blank
    by blast
  have e1: "\<not> shouldFlagAsHardcoded ''Hi''" by code_simp
  have e2: "\<not> shouldFlagAsHardcoded ''#fff''" by code_simp
  have e3: "\<not> shouldFlagAsHardcoded ''PRICE''" by code_simp
  have e4: "shouldFlagAsHardcoded ''Hello World''" by code_simp
  from iff e1 e2 e3 e4 show ?thesis by blast
qed

text \<open>
  C6 as stated fails for a text with white space around it: \<^verbatim>\<open>"  a "\<close> has length 4
  and trimmed length 1, and the classifier flags it.
\<close>

theorem shouldFlagAsHardcoded_untrimmed_counterexample:
  "shouldFlagAsHardcoded ''  a '' \<and> length (trim ''  a '') = 1 \<and> \<not> length (trim ''  a '') > 3"
  by code_simp

section \<open>The shape of a hardcoded-text match\<close>

lemma slice_append: "i \<le> j \<Longrightarrow> j \<le> length s \<Longrightarrow> drop i s = slice s i j @ drop j s"
proof -
  assume a: "i \<le> j" "j \<le> length s"
  have "drop i s = take (j - i) (drop i s) @ drop (j - i) (drop i s)"
    by (rule append_take_drop_id [symmetric])
  also have "drop (j - i) (drop i s) = drop j s"
    using a by simp
  finally show ?thesis by (simp add: slice_def)
qed

lemma slice_run:
  assumes "k \<le> length (takeWhile P (drop i s))"
  shows "list_all P (slice s i (i + k))" "length (slice s i (i + k)) = k"
proof -
  have le: "length (takeWhile P (drop i s)) \<le> length s - i"
    using length_takeWhile_le [of P "drop i s"] by simp
  with assms show len: "length (slice s i (i + k)) = k"
    by (simp add: slice_def)
  show "list_all P (slice s i (i + k))"
    unfolding list_all_length len
  proof (intro allI impI)
    fix n assume n: "n < k"
    with assms le have "i + n < length s" by simp
    then have "slice s i (i + k) ! n = s ! (i + n)"
      using n by (simp add: slice_def)
    with takeWhile_run(2) [OF assms] n show "P (slice s i (i + k) ! n)" by simp
  qed
qed

lemma slice_Cons: "i < length s \<Longrightarrow> i < j \<Longrightarrow> slice s i j = s ! i # slice s (Suc i) j"
  by (simp add: slice_def Cons_nth_drop_Suc [symmetric] take_Cons')

lemma is_letter_facts:
  "is_letter c \<Longrightarrow> \<not> is_space c \<and> c \<noteq> CHR ''<'' \<and> c \<noteq> CHR ''{''"
  by (auto simp: is_letter_def is_upper_def is_lower_def char_between_def is_space_def)

lemma cls_not_tag:
  "cls_match (NotIn [Ch CHR ''<'', Ch CHR ''{'']) = (\<lambda>c. c \<noteq> CHR ''<'' \<and> c \<noteq> CHR ''{'')"
  by (rule ext) simp

lemma hardcoded_match_shape:
  assumes "regexp_exec HARDCODED_TEXT_REGEX code from = Some m"
  shows "\<exists>ws1 ws2 c rest.
           drop (m_index m) code = CHR ''>'' # ws1 @ m_group m @ ws2 @ CHR ''<'' # drop (m_end m) code
         \<and> list_all is_space ws1 \<and> list_all is_space ws2
         \<and> m_group m = c # rest \<and> is_letter c \<and> rest \<noteq> []
         \<and> list_all (\<lambda>x. x \<noteq> CHR ''<'' \<and> x \<noteq> CHR ''{'') rest"
proof -
  define i where "i = m_index m"
  from regexp_exec_SomeD(5) [OF assms] obtain g
    where mh: "match_here HARDCODED_TEXT_REGEX code i (0, 0) = Some (g, m_end m)"
      and grp: "m_group m = take (snd g - fst g) (drop (fst g) code)"
    unfolding i_def by blast
  from mh have i: "i < length code" "code ! i = CHR ''>''"
    and mh1: "match_here [star (In [WS]), GroupOpen,
      one (In [Rng CHR ''A'' CHR ''Z'', Rng CHR ''a'' CHR ''z'']),
      plus_lazy (NotIn [Ch CHR ''<'', Ch CHR ''{'']), GroupClose,
      star (In [WS]), one (In [Ch CHR ''<''])] code (Suc i) (0, 0) = Some (g, m_end m)"
    unfolding HARDCODED_TEXT_REGEX_def match_here_one by (simp_all split: if_splits)
  from match_here_RepD [OF mh1 [unfolded star_def]] obtain k1
    where k1: "k1 \<le> length (takeWhile is_space (drop (Suc i) code))"
      and mh2: "match_here [GroupOpen,
      one (In [Rng CHR ''A'' CHR ''Z'', Rng CHR ''a'' CHR ''z'']),
      plus_lazy (NotIn [Ch CHR ''<'', Ch CHR ''{'']), GroupClose,
      star (In [WS]), one (In [Ch CHR ''<''])] code (Suc i + k1) (0, 0) = Some (g, m_end m)"
    unfolding cls_space star_def by blast
  define a where "a = Suc i + k1"
  from mh2 have a: "a < length code" "is_letter (code ! a)"
    and mh3: "match_here [plus_lazy (NotIn [Ch CHR ''<'', Ch CHR ''{'']), GroupClose,
      star (In [WS]), one (In [Ch CHR ''<''])] code (Suc a) (a, 0) = Some (g, m_end m)"
    unfolding a_def [symmetric] match_here.simps match_here_one cls_letter
    by (simp_all split: if_splits)
  from match_here_RepD [OF mh3 [unfolded plus_lazy_def]] obtain k2
    where k2: "1 \<le> k2" "k2 \<le> length (takeWhile (\<lambda>c. c \<noteq> CHR ''<'' \<and> c \<noteq> CHR ''{'') (drop (Suc a) code))"
      and mh4: "match_here [GroupClose, star (In [WS]), one (In [Ch CHR ''<''])] code (Suc a + k2) (a, 0)
        = Some (g, m_end m)"
    unfolding cls_not_tag by blast
  define b where "b = Suc a + k2"
  from mh4 have mh5: "match_here [star (In [WS]), one (In [Ch CHR ''<''])] code b (a, b) = Some (g, m_end m)"
    unfolding b_def [symmetric] by simp
  from match_here_RepD [OF mh5 [unfolded star_def]] obtain k3
    where k3: "k3 \<le> length (takeWhile is_space (drop b code))"
      and mh6: "match_here [one (In [Ch CHR ''<''])] code (b + k3) (a, b) = Some (g, m_end m)"
    unfolding cls_space by blast
  from mh6 have e: "b + k3 < length code" "code ! (b + k3) = CHR ''<''" "g = (a, b)" "m_end m = Suc (b + k3)"
    unfolding match_here_one by (simp_all split: if_splits)
  have grp': "m_group m = slice code a b"
    by (simp add: grp e(3) slice_def)
  have ab: "a < b" "b \<le> length code" using e(1) by (simp_all add: b_def)
  have g1: "slice code a b = code ! a # slice code (Suc a) b"
    using a(1) ab(1) by (rule slice_Cons)
  have rest: "list_all (\<lambda>x. x \<noteq> CHR ''<'' \<and> x \<noteq> CHR ''{'') (slice code (Suc a) b)"
    "length (slice code (Suc a) b) = k2"
    using slice_run [OF k2(2)] by (simp_all add: b_def)
  have ws1: "list_all is_space (slice code (Suc i) a)"
    using slice_run(1) [OF k1] by (simp add: a_def)
  have ws2: "list_all is_space (slice code b (b + k3))"
    using slice_run(1) [OF k3] .
  have d0: "drop i code = CHR ''>'' # drop (Suc i) code"
    using i by (simp add: Cons_nth_drop_Suc [symmetric])
  have d1: "drop (Suc i) code = slice code (Suc i) a @ drop a code"
    using a(1) by (intro slice_append) (simp_all add: a_def)
  have d2: "drop a code = slice code a b @ drop b code"
    using ab by (intro slice_append) simp_all
  have d3: "drop b code = slice code b (b + k3) @ drop (b + k3) code"
    using e(1) by (intro slice_append) simp_all
  have d4: "drop (b + k3) code = CHR ''<'' # drop (m_end m) code"
    using e(1,2,4) by (simp add: Cons_nth_drop_Suc [symmetric])
  have dec: "drop (m_index m) code =
      CHR ''>'' # slice code (Suc i) a @ m_group m @ slice code b (b + k3) @ CHR ''<'' # drop (m_end m) code"
    unfolding i_def [symmetric] grp' d0 d1 d2 d3 d4 by simp
  from rest(2) k2(1) have ne: "slice code (Suc a) b \<noteq> []" by auto
  have g2: "m_group m = code ! a # slice code (Suc a) b"
    using grp' g1 by simp
  show ?thesis
    apply (rule exI [where x = "slice code (Suc i) a"])
    apply (rule exI [where x = "slice code b (b + k3)"])
    apply (rule exI [where x = "code ! a"])
    apply (rule exI [where x = "slice code (Suc a) b"])
    apply (intro conjI)
          apply (rule dec)
         apply (rule ws1)
        apply (rule ws2)
       apply (rule g2)
      apply (rule a(2))
     apply (rule ne)
    apply (rule rest(1))
    done
qed

lemma dropWhile_snoc_keep:
  "\<not> P c \<Longrightarrow> \<exists>ys. dropWhile P (xs @ [c]) = ys @ [c] \<and> set ys \<subseteq> set xs"
proof (induction xs)
  case Nil
  then show ?case by simp
next
  case (Cons x xs)
  then obtain ys where ys: "dropWhile P (xs @ [c]) = ys @ [c]" "set ys \<subseteq> set xs" by blast
  show ?case
  proof (cases "P x")
    case True
    with ys show ?thesis by auto
  next
    case False
    then have "dropWhile P ((x # xs) @ [c]) = (x # xs) @ [c]" by simp
    then show ?thesis by blast
  qed
qed

lemma trim_keeps_head:
  assumes "\<not> is_space c"
  shows "\<exists>t. trim (c # rest) = c # t \<and> set t \<subseteq> set rest"
proof -
  have 1: "dropWhile is_space (c # rest) = c # rest" using assms by simp
  from dropWhile_snoc_keep [of is_space c "rev rest"] assms obtain ys
    where ys: "dropWhile is_space (rev rest @ [c]) = ys @ [c]" "set ys \<subseteq> set (rev rest)" by blast
  have "trim (c # rest) = c # rev ys"
    using assms ys(1) by (simp add: trim_def)
  with ys(2) show ?thesis by auto
qed

section \<open>The scan as a fold over the matches\<close>

lemma exec_all_I18N: "exec_all I18N_REGEX code 0 = Some (key_matches code)"
proof -
  from I18N_REGEX_starts obtain r where r: "I18N_REGEX = one (In [Ch CHR ''i'']) # r" by blast
  from exec_all_returns [of "In [Ch CHR ''i'']" r code 0]
  show ?thesis by (auto simp: key_matches_def r)
qed

lemma exec_all_HARDCODED: "exec_all HARDCODED_TEXT_REGEX code 0 = Some (text_matches code)"
proof -
  from HARDCODED_TEXT_REGEX_starts obtain r
    where r: "HARDCODED_TEXT_REGEX = one (In [Ch CHR ''>'']) # r" by blast
  from exec_all_returns [of "In [Ch CHR ''>'']" r code 0]
  show ?thesis by (auto simp: text_matches_def r)
qed

lemma add_keys_Cons: "add_keys used (k # ks) = add_keys (set_add k used) ks"
  by (simp add: add_keys_def)

lemma add_keys_Nil [simp]: "add_keys used [] = used"
  by (simp add: add_keys_def)

lemma add_keys_append: "add_keys (add_keys used ks) ks' = add_keys used (ks @ ks')"
  by (simp add: add_keys_def)

lemma foldl_i18n_body:
  "foldl (\<lambda>st m. i18n_body translations file m st) st ms =
     st\<lparr>missingKeys := missingKeys st @
            map (\<lambda>m. [(''file'', JStr file), (''key'', JStr (m_group m))])
              (filter (\<lambda>m. \<not> truthy (resolveKey translations (m_group m))) ms),
         malformedKeys := malformedKeys st @
            map (\<lambda>m. [(''file'', JStr file), (''key'', JStr (m_group m)),
                       (''issue'', JStr ''Use dot notation instead of bracket notation'')])
              (filter (\<lambda>m. CHR ''['' \<in> set (m_group m) \<and> CHR '']'' \<in> set (m_group m)) ms),
         usedKeys := add_keys (usedKeys st) (map m_group ms)\<rparr>"
proof (induction ms arbitrary: st)
  case Nil
  then show ?case by simp
next
  case (Cons m ms)
  show ?case
    unfolding foldl_Cons Cons
    by (simp add: i18n_body_def Let_def add_keys_Cons)
qed

lemma foldl_hardcoded_body:
  "foldl (\<lambda>st m. hardcoded_body file m st) st ms =
     st\<lparr>hardcodedStrings := hardcodedStrings st @
            map (\<lambda>m. [(''file'', JStr file), (''text'', JStr (trim (m_group m)))])
              (filter (\<lambda>m. shouldFlagAsHardcoded (trim (m_group m))) ms)\<rparr>"
proof (induction ms arbitrary: st)
  case Nil
  then show ?case by simp
next
  case (Cons m ms)
  show ?case
    unfolding foldl_Cons Cons
    by (simp add: hardcoded_body_def Let_def)
qed

lemma scan_file_eq:
  "scan_file translations e file st =
     Some (st\<lparr>missingKeys := missingKeys st @ file_missing translations e file,
              hardcodedStrings := hardcodedStrings st @ file_hardcoded e file,
              malformedKeys := malformedKeys st @ file_malformed e file,
              usedKeys := add_keys (usedKeys st) (file_keys e file)\<rparr>)"
proof (cases "readFileSync e file")
  case (Inl message)
  then show ?thesis
    by (simp add: scan_file_def file_missing_def file_hardcoded_def file_malformed_def file_keys_def)
next
  case (Inr code)
  then show ?thesis
    by (simp add: scan_file_def file_missing_def file_hardcoded_def file_malformed_def file_keys_def
        while_exec_fold exec_all_I18N exec_all_HARDCODED foldl_i18n_body foldl_hardcoded_body
        missing_of_def malformed_of_def hardcoded_of_def)
qed

lemma scan_files_eq:
  "scan_files translations e files st =
     Some (st\<lparr>missingKeys := missingKeys st @ concat (map (file_missing translations e) files),
              hardcodedStrings := hardcodedStrings st @ concat (map (file_hardcoded e) files),
              malformedKeys := malformedKeys st @ concat (map (file_malformed e) files),
              usedKeys := add_keys (usedKeys st) (concat (map (file_keys e) files))\<rparr>)"
proof (induction files arbitrary: st)
  case Nil
  then show ?case by simp
next
  case (Cons f fs)
  show ?case
    unfolding scan_files.simps scan_file_eq option.case Cons
    by (simp add: add_keys_append)
qed

section \<open>The result of a run\<close>

lemma scan_files_empty: "scan_files translations e files empty_scan = Some (scanned translations e files)"
  unfolding scan_files_eq by (simp add: empty_scan_def scanned_def)

lemma scanned_fields [simp]:
  "missingKeys (scanned translations e files) = concat (map (file_missing translations e) files)"
  "hardcodedStrings (scanned translations e files) = concat (map (file_hardcoded e) files)"
  "unusedKeys (scanned translations e files) = []"
  "malformedKeys (scanned translations e files) = concat (map (file_malformed e) files)"
  "usedKeys (scanned translations e files) = add_keys [] (concat (map (file_keys e) files))"
  by (simp_all add: scanned_def)

lemma final_findings_fields [simp]:
  "missingKeys (final_findings translations e files) = concat (map (file_missing translations e) files)"
  "hardcodedStrings (final_findings translations e files) = concat (map (file_hardcoded e) files)"
  "unusedKeys (final_findings translations e files) =
     filter (\<lambda>key. key \<notin> set (add_keys [] (concat (map (file_keys e) files))))
       (extractAllKeys translations [])"
  "malformedKeys (final_findings translations e files) = concat (map (file_malformed e) files)"
  "usedKeys (final_findings translations e files) = add_keys [] (concat (map (file_keys e) files))"
  by (simp_all add: final_findings_def)

lemma grade_not_loaded:
  "load_translations e cfg = Inl message
     \<Longrightarrow> gradeLanguageImplementation e cfg = Some (Inr (load_error message))"
  by (simp add: gradeLanguageImplementation_def load_error_def)

lemma grade_loaded:
  "load_translations e cfg = Inr translations
     \<Longrightarrow> gradeLanguageImplementation e cfg =
         (if translations = JNull then Some (Inl TypeError)
          else Some (Inr (graded translations e cfg)))"
  by (simp add: gradeLanguageImplementation_def scan_files_empty extractAllKeys_top_def
      graded_def final_findings_def Let_def)

lemma grade_returns: "gradeLanguageImplementation e cfg \<noteq> None"
  by (cases "load_translations e cfg") (simp_all add: grade_not_loaded grade_loaded)

lemma sample_run: "gradeLanguageImplementation sample_env sample_config = Some (Inr sample_result)"
  by code_simp

section \<open>The scoring model\<close>


lemma or_default_absent [simp]: "or_default None d = d"
  by (simp add: or_default_def)

lemma or_default_nonzero: "v \<noteq> 0 \<Longrightarrow> or_default (Some v) d = v"
  by (simp add: or_default_def)

lemma or_default_zero [simp]: "or_default (Some 0) d = d"
  by (simp add: or_default_def)

lemma calculateScore_formula:
  "calculateScore r cfg = max 0 (1 -
      (of_nat (length (missingKeys r)) * or_default (missingKeyWeight cfg) 0.4
     + of_nat (length (hardcodedStrings r)) * or_default (hardcodedWeight cfg) 0.3
     + of_nat (length (malformedKeys r)) * or_default (malformedWeight cfg) 0.2
     + of_nat (length (unusedKeys r)) * or_default (unusedKeyWeight cfg) 0.1) / 10)"
  by (simp add: calculateScore_def Let_def)



text \<open>
  C3, evaluated at a configured weight of 0. The report holds one missing key and the
  configuration sets \<^verbatim>\<open>missingKeyWeight: 0\<close>. With the configured weight the
  penalty is 0 and the score 1; \<^verbatim>\<open>config.missingKeyWeight || 0.4\<close> replaces the
  configured 0 by the default 0.4, and the computed score is 0.96.
\<close>

theorem calculateScore_zero_weight_replaced:
  "calculateScore (no_findings\<lparr>missingKeys := [[(''file'', JStr ''a.js''), (''key'', JStr ''k'')]]\<rparr>)
     (default_config\<lparr>missingKeyWeight := Some 0\<rparr>) = 0.96
   \<and> max 0 (1 - (1 * 0 + 0 * 0.3 + 0 * 0.2 + 0 * 0.1) / 10) = (1::rat)"
  by (simp add: calculateScore_formula no_findings_def default_config_def)




section \<open>Loading, missing keys and the success flag\<close>

text \<open>
  C7: when the translation file is absent, or its content does not parse, the run
  returns \<open>success = False\<close>, \<open>score = 0\<close> and a report that holds only the error
  string, which names the failure; the result does not depend on any source file, so no
  later stage contributes to it.
\<close>

theorem translation_load_failure:
  "(\<not> existsSync e (translationFile cfg) \<longrightarrow>
      gradeLanguageImplementation e cfg =
        Some (Inr \<lparr>success = False, score = 0,
                   report = ErrorReport (''Failed to load translation file: ''
                     @ ''Translation file not found: '' @ translationFile cfg)\<rparr>))
   \<and> (existsSync e (translationFile cfg) \<and> readFileSync e (translationFile cfg) = Inr data
        \<and> JSON_parse e data = Inl message \<longrightarrow>
      gradeLanguageImplementation e cfg =
        Some (Inr \<lparr>success = False, score = 0,
                   report = ErrorReport (''Failed to load translation file: '' @ message)\<rparr>))"
proof (intro conjI impI)
  assume "\<not> existsSync e (translationFile cfg)"
  then have "load_translations e cfg = Inl (''Translation file not found: '' @ translationFile cfg)"
    by (simp add: load_translations_def)
  from grade_not_loaded [OF this]
  show "gradeLanguageImplementation e cfg =
        Some (Inr \<lparr>success = False, score = 0,
                   report = ErrorReport (''Failed to load translation file: ''
                     @ ''Translation file not found: '' @ translationFile cfg)\<rparr>)"
    by (simp add: load_error_def)
next
  assume "existsSync e (translationFile cfg) \<and> readFileSync e (translationFile cfg) = Inr data
        \<and> JSON_parse e data = Inl message"
  then have "load_translations e cfg = Inl message"
    by (simp add: load_translations_def)
  from grade_not_loaded [OF this]
  show "gradeLanguageImplementation e cfg =
        Some (Inr \<lparr>success = False, score = 0,
                   report = ErrorReport (''Failed to load translation file: '' @ message)\<rparr>)"
    by (simp add: load_error_def)
qed

theorem translation_load_failure_witness:
  "\<not> existsSync absent_env (translationFile sample_config)
   \<and> glob_sync absent_env (sourcePattern sample_config) (ignorePattern sample_config) = [''a.js'']
   \<and> gradeLanguageImplementation absent_env sample_config =
        Some (Inr \<lparr>success = False, score = 0,
                   report = ErrorReport
                     ''Failed to load translation file: Translation file not found: ./en.json''\<rparr>)
   \<and> existsSync unparseable_env (translationFile sample_config)
   \<and> readFileSync unparseable_env (translationFile sample_config) = Inr ''{}''
   \<and> JSON_parse unparseable_env ''{}'' = Inl ''Unexpected end of JSON input''
   \<and> gradeLanguageImplementation unparseable_env sample_config =
        Some (Inr \<lparr>success = False, score = 0,
                   report = ErrorReport
                     ''Failed to load translation file: Unexpected end of JSON input''\<rparr>)"
proof -
  have a: "\<not> existsSync absent_env (translationFile sample_config)"
    by (simp add: absent_env_def)
  have g: "glob_sync absent_env (sourcePattern sample_config) (ignorePattern sample_config) = [''a.js'']"
    by (simp add: absent_env_def sample_env_def)
  have f: "translationFile sample_config = ''./en.json''"
    by (simp add: sample_config_def)
  have u: "existsSync unparseable_env (translationFile sample_config)"
    "readFileSync unparseable_env (translationFile sample_config) = Inr ''{}''"
    "JSON_parse unparseable_env ''{}'' = Inl ''Unexpected end of JSON input''"
    by (simp_all add: unparseable_env_def sample_env_def f)
  from translation_load_failure [of absent_env sample_config] a
  have r1: "gradeLanguageImplementation absent_env sample_config =
        Some (Inr \<lparr>success = False, score = 0,
                   report = ErrorReport
                     ''Failed to load translation file: Translation file not found: ./en.json''\<rparr>)"
    by (simp add: f)
  from translation_load_failure [of unparseable_env sample_config "''{}''" "''Unexpected end of JSON input''"] u
  have r2: "gradeLanguageImplementation unparseable_env sample_config =
        Some (Inr \<lparr>success = False, score = 0,
                   report = ErrorReport
                     ''Failed to load translation file: Unexpected end of JSON input''\<rparr>)"
    by simp
  from a g r1 u r2 show ?thesis by blast
qed

text \<open>
  C1, evaluated where a key resolves to the empty string. The document of the sample run
  holds \<^verbatim>\<open>empty: ""\<close> and the source calls \<^verbatim>\<open>i18n.t('empty')\<close>:
  \<^verbatim>\<open>resolveKey\<close> returns the defined value \<^verbatim>\<open>""\<close>, and the test
  \<^verbatim>\<open>!resolveKey(translations, key)\<close> of line 112 reports the key as missing.
\<close>

theorem falsy_translation_reported_missing:
  "resolveKey sample_doc ''empty'' = Some (JStr [])
   \<and> gradeLanguageImplementation sample_env sample_config =
       Some (Inr \<lparr>success = True, score = 0.92,
          report = FullReport
             \<lparr>missingKeys = [[(''file'', JStr ''a.js''), (''key'', JStr ''empty'')]],
              hardcodedStrings = [[(''file'', JStr ''a.js''), (''text'', JStr ''Hello'')]],
              unusedKeys = [''title''], malformedKeys = [],
              summary =
                \<lparr>filesScanned = 1, totalKeys = 2, usedKeysSize = 1,
                 missingKeysCount = 1, hardcodedStringsCount = 1,
                 unusedKeysCount = 1, malformedKeysCount = 0,
                 summaryScore = 0.92\<rparr>\<rparr>\<rparr>)"
  by code_simp

text \<open>
  C4, evaluated at a configured minimum score of 0. With \<^verbatim>\<open>minimumScore: 0\<close> and
  \<^verbatim>\<open>missingKeyWeight: 5\<close> the sample run scores 0.46, which is at least the configured
  minimum; \<^verbatim>\<open>config.minimumScore || 0.8\<close> replaces the configured 0 by 0.8 and
  the run is reported as failed.
\<close>

theorem zero_minimum_score_replaced:
  "(0::rat) \<le> 0.46
   \<and> gradeLanguageImplementation sample_env
        (sample_config\<lparr>minimumScore := Some 0, missingKeyWeight := Some 5\<rparr>) =
       Some (Inr \<lparr>success = False, score = 0.46,
          report = FullReport
             \<lparr>missingKeys = [[(''file'', JStr ''a.js''), (''key'', JStr ''empty'')]],
              hardcodedStrings = [[(''file'', JStr ''a.js''), (''text'', JStr ''Hello'')]],
              unusedKeys = [''title''], malformedKeys = [],
              summary =
                \<lparr>filesScanned = 1, totalKeys = 2, usedKeysSize = 1,
                 missingKeysCount = 1, hardcodedStringsCount = 1,
                 unusedKeysCount = 1, malformedKeysCount = 0,
                 summaryScore = 0.46\<rparr>\<rparr>\<rparr>)"
  by code_simp

section \<open>Hardcoded-text candidates\<close>

lemma text_matches_member:
  "m \<in> set (text_matches code) \<Longrightarrow> \<exists>from. regexp_exec HARDCODED_TEXT_REGEX code from = Some m"
  using exec_all_member [OF exec_all_HARDCODED] by blast

lemma hardcoded_of_entry:
  assumes "entry \<in> set (hardcoded_of f code)"
  shows "\<exists>c t. entry = [(''file'', JStr f), (''text'', JStr (c # t))] \<and> is_letter c
           \<and> CHR ''<'' \<notin> set (c # t) \<and> CHR ''{'' \<notin> set (c # t)"
proof -
  from assms obtain m where m: "m \<in> set (text_matches code)"
    and entry: "entry = [(''file'', JStr f), (''text'', JStr (trim (m_group m)))]"
    by (auto simp: hardcoded_of_def)
  from text_matches_member [OF m] obtain start
    where "regexp_exec HARDCODED_TEXT_REGEX code start = Some m" by blast
  from hardcoded_match_shape [OF this] obtain c rest
    where g: "m_group m = c # rest" and c: "is_letter c"
      and rest: "list_all (\<lambda>x. x \<noteq> CHR ''<'' \<and> x \<noteq> CHR ''{'') rest" by blast
  from is_letter_facts [OF c] have nc: "\<not> is_space c" "c \<noteq> CHR ''<''" "c \<noteq> CHR ''{''"
    by simp_all
  from trim_keeps_head [OF nc(1), of rest] obtain t
    where t: "trim (c # rest) = c # t" "set t \<subseteq> set rest" by blast
  from rest t(2) nc(2,3) have "CHR ''<'' \<notin> set (c # t)" "CHR ''{'' \<notin> set (c # t)"
    by (auto simp: list_all_iff)
  with entry g t(1) c show ?thesis by simp
qed

lemma file_hardcoded_entry:
  assumes "entry \<in> set (file_hardcoded e f)"
  shows "\<exists>c t. entry = [(''file'', JStr f), (''text'', JStr (c # t))] \<and> is_letter c
           \<and> CHR ''<'' \<notin> set (c # t) \<and> CHR ''{'' \<notin> set (c # t)"
proof (cases "readFileSync e f")
  case (Inl message)
  with assms show ?thesis by (simp add: file_hardcoded_def)
next
  case (Inr code)
  with assms have "entry \<in> set (hardcoded_of f code)" by (simp add: file_hardcoded_def)
  then show ?thesis by (rule hardcoded_of_entry)
qed

lemma graded_report:
  "\<exists>s. report (graded translations e cfg) =
     FullReport
       \<lparr>missingKeys = concat (map (file_missing translations e)
                          (glob_sync e (sourcePattern cfg) (ignorePattern cfg))),
        hardcodedStrings = concat (map (file_hardcoded e)
                          (glob_sync e (sourcePattern cfg) (ignorePattern cfg))),
        unusedKeys = filter (\<lambda>key. key \<notin> set (add_keys [] (concat (map (file_keys e)
                          (glob_sync e (sourcePattern cfg) (ignorePattern cfg))))))
                       (extractAllKeys translations []),
        malformedKeys = concat (map (file_malformed e)
                          (glob_sync e (sourcePattern cfg) (ignorePattern cfg))),
        summary = s\<rparr>"
  by (simp add: graded_def Let_def)

lemma grade_full_report:
  assumes "gradeLanguageImplementation e cfg = Some (Inr r)" and "report r = FullReport rep"
  shows "\<exists>translations. load_translations e cfg = Inr translations \<and> r = graded translations e cfg"
proof (cases "load_translations e cfg")
  case (Inl message)
  from grade_not_loaded [OF this] assms show ?thesis by (auto simp: load_error_def)
next
  case (Inr tr)
  from grade_loaded [OF Inr] assms(1) show ?thesis
    using Inr by (auto split: if_splits)
qed

text \<open>
  C10: every match of the hardcoded-text pass lies between a \<^verbatim>\<open>></\<close> and the next
  \<^verbatim>\<open><\<close>, with only white space around the captured text; the capture begins with
  an ASCII letter and holds no \<^verbatim>\<open><\<close> and no \<^verbatim>\<open>{\<close>. So does every text that a run
  reports in \<open>hardcodedStrings\<close>, and the two example spans have no match at all.
\<close>

theorem hardcoded_candidates:
  "(regexp_exec HARDCODED_TEXT_REGEX code from = Some m \<longrightarrow>
      (\<exists>ws1 ws2 c rest.
          drop (m_index m) code = CHR ''>'' # ws1 @ m_group m @ ws2 @ CHR ''<'' # drop (m_end m) code
        \<and> list_all is_space ws1 \<and> list_all is_space ws2
        \<and> m_group m = c # rest \<and> is_letter c
        \<and> CHR ''<'' \<notin> set (m_group m) \<and> CHR ''{'' \<notin> set (m_group m)))
   \<and> (gradeLanguageImplementation e cfg = Some (Inr r) \<and> report r = FullReport rep \<longrightarrow>
        (\<forall>entry\<in>set (hardcodedStrings rep).
           \<exists>f c t. entry = [(''file'', JStr f), (''text'', JStr (c # t))] \<and> is_letter c
             \<and> CHR ''<'' \<notin> set (c # t) \<and> CHR ''{'' \<notin> set (c # t)))
   \<and> regexp_exec HARDCODED_TEXT_REGEX ''>123 items<'' 0 = None
   \<and> regexp_exec HARDCODED_TEXT_REGEX ''>Hello {name}<'' 0 = None"
proof (intro conjI impI)
  assume "regexp_exec HARDCODED_TEXT_REGEX code from = Some m"
  from hardcoded_match_shape [OF this] obtain ws1 ws2 c rest
    where d: "drop (m_index m) code = CHR ''>'' # ws1 @ m_group m @ ws2 @ CHR ''<'' # drop (m_end m) code"
      and ws: "list_all is_space ws1" "list_all is_space ws2"
      and g: "m_group m = c # rest" and c: "is_letter c"
      and rest: "list_all (\<lambda>x. x \<noteq> CHR ''<'' \<and> x \<noteq> CHR ''{'') rest" by blast
  from is_letter_facts [OF c] rest g
  have "CHR ''<'' \<notin> set (m_group m)" "CHR ''{'' \<notin> set (m_group m)"
    by (auto simp: list_all_iff)
  with d ws g c
  show "\<exists>ws1 ws2 c rest.
          drop (m_index m) code = CHR ''>'' # ws1 @ m_group m @ ws2 @ CHR ''<'' # drop (m_end m) code
        \<and> list_all is_space ws1 \<and> list_all is_space ws2
        \<and> m_group m = c # rest \<and> is_letter c
        \<and> CHR ''<'' \<notin> set (m_group m) \<and> CHR ''{'' \<notin> set (m_group m)"
    by blast
next
  assume a: "gradeLanguageImplementation e cfg = Some (Inr r) \<and> report r = FullReport rep"
  then obtain tr where r: "r = graded tr e cfg"
    using grade_full_report by blast
  from graded_report [of tr e cfg] a r
  have h: "hardcodedStrings rep = concat (map (file_hardcoded e)
      (glob_sync e (sourcePattern cfg) (ignorePattern cfg)))"
    by auto
  show "\<forall>entry\<in>set (hardcodedStrings rep).
           \<exists>f c t. entry = [(''file'', JStr f), (''text'', JStr (c # t))] \<and> is_letter c
             \<and> CHR ''<'' \<notin> set (c # t) \<and> CHR ''{'' \<notin> set (c # t)"
  proof
    fix entry assume "entry \<in> set (hardcodedStrings rep)"
    then obtain f where "entry \<in> set (file_hardcoded e f)"
      unfolding h by auto
    from file_hardcoded_entry [OF this] show "\<exists>f c t. entry = [(''file'', JStr f), (''text'', JStr (c # t))]
        \<and> is_letter c \<and> CHR ''<'' \<notin> set (c # t) \<and> CHR ''{'' \<notin> set (c # t)"
      by blast
  qed
next
  show "regexp_exec HARDCODED_TEXT_REGEX ''>123 items<'' 0 = None"
    by code_simp
next
  show "regexp_exec HARDCODED_TEXT_REGEX ''>Hello {name}<'' 0 = None"
    by code_simp
qed

theorem hardcoded_candidates_witness:
  "regexp_exec HARDCODED_TEXT_REGEX ''<b> Hello </b>'' 0
     = Some \<lparr>m_index = 2, m_end = 11, m_group = ''Hello''\<rparr>
   \<and> (\<exists>ws1 ws2 c rest.
          ''> Hello </b>'' = CHR ''>'' # ws1 @ ''Hello'' @ ws2 @ CHR ''<'' # ''/b>''
        \<and> list_all is_space ws1 \<and> list_all is_space ws2
        \<and> ''Hello'' = c # rest \<and> is_letter c
        \<and> CHR ''<'' \<notin> set ''Hello'' \<and> CHR ''{'' \<notin> set ''Hello'')
   \<and> gradeLanguageImplementation sample_env sample_config = Some (Inr sample_result)
   \<and> report sample_result = FullReport sample_report
   \<and> [(''file'', JStr ''a.js''), (''text'', JStr ''Hello'')] \<in> set (hardcodedStrings sample_report)
   \<and> (\<exists>f c t. [(''file'', JStr ''a.js''), (''text'', JStr ''Hello'')]
          = [(''file'', JStr f), (''text'', JStr (c # t))] \<and> is_letter c
        \<and> CHR ''<'' \<notin> set (c # t) \<and> CHR ''{'' \<notin> set (c # t))"
proof -
  have x: "regexp_exec HARDCODED_TEXT_REGEX ''<b> Hello </b>'' 0
     = Some \<lparr>m_index = 2, m_end = 11, m_group = ''Hello''\<rparr>"
    by code_simp
  have run: "gradeLanguageImplementation sample_env sample_config = Some (Inr sample_result)"
    by (rule sample_run)
  have rep: "report sample_result = FullReport sample_report"
    by (simp add: sample_result_def)
  have mem: "[(''file'', JStr ''a.js''), (''text'', JStr ''Hello'')] \<in> set (hardcodedStrings sample_report)"
    by (simp add: sample_report_def)
  note inst = hardcoded_candidates [of "''<b> Hello </b>''" 0
      "\<lparr>m_index = 2, m_end = 11, m_group = ''Hello''\<rparr>" sample_env sample_config sample_result sample_report]
  from inst x have shape: "\<exists>ws1 ws2 c rest.
          ''> Hello </b>'' = CHR ''>'' # ws1 @ ''Hello'' @ ws2 @ CHR ''<'' # ''/b>''
        \<and> list_all is_space ws1 \<and> list_all is_space ws2
        \<and> ''Hello'' = c # rest \<and> is_letter c
        \<and> CHR ''<'' \<notin> set ''Hello'' \<and> CHR ''{'' \<notin> set ''Hello''"
    by simp
  from inst run rep have "\<forall>entry\<in>set (hardcodedStrings sample_report).
           \<exists>f c t. entry = [(''file'', JStr f), (''text'', JStr (c # t))] \<and> is_letter c
             \<and> CHR ''<'' \<notin> set (c # t) \<and> CHR ''{'' \<notin> set (c # t)"
    by blast
  with mem have entry: "\<exists>f c t. [(''file'', JStr ''a.js''), (''text'', JStr ''Hello'')]
          = [(''file'', JStr f), (''text'', JStr (c # t))] \<and> is_letter c
        \<and> CHR ''<'' \<notin> set (c # t) \<and> CHR ''{'' \<notin> set (c # t)"
    by blast
  from x shape run rep mem entry show ?thesis by blast
qed

section \<open>Line numbers\<close>

lemma length_split_on: "length (split_on c s) = Suc (count_list s c)"
proof (induction s)
  case Nil
  then show ?case by simp
next
  case (Cons x xs)
  obtain p ps where r: "split_on c xs = p # ps"
    using split_on_nonempty [of c xs] by (cases "split_on c xs") auto
  from Cons show ?case by (simp add: r)
qed

lemma getLineNumber_eq:
  "getLineNumber content index = count_list (take index content) (CHR 0x0A) + 1"
  by (simp add: getLineNumber_def length_split_on)

lemma foldl_usedKeys_body:
  "foldl (\<lambda>acc m. usedKeys_body content m acc) acc ms =
     acc @ map (\<lambda>m. [(''key'', JStr (m_group m)),
                      (''line'', JNum (of_nat (getLineNumber content (m_index m))))]) ms"
  by (induction ms arbitrary: acc) (simp_all add: usedKeys_body_def)

lemma foldl_hardcodedStrings_body:
  "foldl (\<lambda>acc m. hardcodedStrings_body content m acc) acc ms =
     acc @ map (\<lambda>m. [(''text'', JStr (trim (m_group m))),
                      (''line'', JNum (of_nat (getLineNumber content (m_index m))))])
             (filter (\<lambda>m. shouldFlagAsHardcoded (trim (m_group m))) ms)"
  by (induction ms arbitrary: acc) (simp_all add: hardcodedStrings_body_def Let_def)

lemma analyzeI18nUsage_eq:
  "\<exists>a. analyzeI18nUsage content = Some a
      \<and> analysis_usedKeys a =
          map (\<lambda>m. [(''key'', JStr (m_group m)),
                     (''line'', JNum (of_nat (getLineNumber content (m_index m))))])
            (key_matches content)
      \<and> analysis_hardcodedStrings a =
          map (\<lambda>m. [(''text'', JStr (trim (m_group m))),
                     (''line'', JNum (of_nat (getLineNumber content (m_index m))))])
            (filter (\<lambda>m. shouldFlagAsHardcoded (trim (m_group m))) (text_matches content))"
  by (simp add: analyzeI18nUsage_def while_exec_fold exec_all_I18N exec_all_HARDCODED
      foldl_usedKeys_body foldl_hardcodedStrings_body)

lemma file_missing_fields:
  "entry \<in> set (file_missing tr e f) \<Longrightarrow> map fst entry = [''file'', ''key'']"
  by (cases "readFileSync e f") (auto simp: file_missing_def missing_of_def)

lemma file_hardcoded_fields:
  "entry \<in> set (file_hardcoded e f) \<Longrightarrow> map fst entry = [''file'', ''text'']"
  by (cases "readFileSync e f") (auto simp: file_hardcoded_def hardcoded_of_def)

text \<open>
  C5 (as amended): the findings of \<^verbatim>\<open>analyzeI18nUsage\<close> in the file scanner carry
  the line of their match, the number of newline characters strictly before the start of
  the match plus one, for every match of either pass; the entries that
  \<^verbatim>\<open>gradeLanguageImplementation\<close> appends to \<open>missingKeys\<close> and
  \<open>hardcodedStrings\<close> have the properties \<^verbatim>\<open>file, key\<close> and \<^verbatim>\<open>file, text\<close>
  and no other.
\<close>

theorem findings_line_numbers:
  "(\<exists>a. analyzeI18nUsage content = Some a
      \<and> analysis_usedKeys a =
          map (\<lambda>m. [(''key'', JStr (m_group m)),
                     (''line'', JNum (of_nat (count_list (take (m_index m) content) (CHR 0x0A) + 1)))])
            (key_matches content)
      \<and> analysis_hardcodedStrings a =
          map (\<lambda>m. [(''text'', JStr (trim (m_group m))),
                     (''line'', JNum (of_nat (count_list (take (m_index m) content) (CHR 0x0A) + 1)))])
            (filter (\<lambda>m. shouldFlagAsHardcoded (trim (m_group m))) (text_matches content)))
   \<and> (gradeLanguageImplementation e cfg = Some (Inr r) \<and> report r = FullReport rep \<longrightarrow>
        list_all (\<lambda>entry. map fst entry = [''file'', ''key'']) (missingKeys rep)
      \<and> list_all (\<lambda>entry. map fst entry = [''file'', ''text'']) (hardcodedStrings rep))"
proof (intro conjI impI)
  from analyzeI18nUsage_eq [of content]
  show "\<exists>a. analyzeI18nUsage content = Some a
      \<and> analysis_usedKeys a =
          map (\<lambda>m. [(''key'', JStr (m_group m)),
                     (''line'', JNum (of_nat (count_list (take (m_index m) content) (CHR 0x0A) + 1)))])
            (key_matches content)
      \<and> analysis_hardcodedStrings a =
          map (\<lambda>m. [(''text'', JStr (trim (m_group m))),
                     (''line'', JNum (of_nat (count_list (take (m_index m) content) (CHR 0x0A) + 1)))])
            (filter (\<lambda>m. shouldFlagAsHardcoded (trim (m_group m))) (text_matches content))"
    unfolding getLineNumber_eq .
next
  assume a: "gradeLanguageImplementation e cfg = Some (Inr r) \<and> report r = FullReport rep"
  then obtain tr where r: "r = graded tr e cfg"
    using grade_full_report by blast
  from graded_report [of tr e cfg] a r
  have m: "missingKeys rep = concat (map (file_missing tr e)
      (glob_sync e (sourcePattern cfg) (ignorePattern cfg)))"
    and h: "hardcodedStrings rep = concat (map (file_hardcoded e)
      (glob_sync e (sourcePattern cfg) (ignorePattern cfg)))"
    by auto
  show "list_all (\<lambda>entry. map fst entry = [''file'', ''key'']) (missingKeys rep)"
    unfolding m list_all_iff using file_missing_fields by auto
  show "list_all (\<lambda>entry. map fst entry = [''file'', ''text'']) (hardcodedStrings rep)"
    unfolding h list_all_iff using file_hardcoded_fields by auto
qed

theorem findings_line_numbers_witness:
  "(\<exists>a. analyzeI18nUsage sample_source = Some a
      \<and> analysis_usedKeys a = [[(''key'', JStr ''empty''), (''line'', JNum 2)]]
      \<and> analysis_hardcodedStrings a = [[(''text'', JStr ''Hello''), (''line'', JNum 1)]])
   \<and> gradeLanguageImplementation sample_env sample_config = Some (Inr sample_result)
   \<and> report sample_result = FullReport sample_report
   \<and> list_all (\<lambda>entry. map fst entry = [''file'', ''key'']) (missingKeys sample_report)
   \<and> list_all (\<lambda>entry. map fst entry = [''file'', ''text'']) (hardcodedStrings sample_report)"
proof -
  have km: "key_matches sample_source = [\<lparr>m_index = 13, m_end = 28, m_group = ''empty''\<rparr>]"
    by code_simp
  have tm: "filter (\<lambda>m. shouldFlagAsHardcoded (trim (m_group m))) (text_matches sample_source)
      = [\<lparr>m_index = 2, m_end = 9, m_group = ''Hello''\<rparr>]"
    by code_simp
  have l2: "count_list (take 13 sample_source) (CHR 0x0A) = 1"
    by code_simp
  have l1: "count_list (take 2 sample_source) (CHR 0x0A) = 0"
    by code_simp
  have t: "trim ''Hello'' = ''Hello''"
    by code_simp
  have run: "gradeLanguageImplementation sample_env sample_config = Some (Inr sample_result)"
    by (rule sample_run)
  have rep: "report sample_result = FullReport sample_report"
    by (simp add: sample_result_def)
  note inst = findings_line_numbers [of sample_source sample_env sample_config sample_result sample_report]
  from inst have "\<exists>a. analyzeI18nUsage sample_source = Some a
      \<and> analysis_usedKeys a = [[(''key'', JStr ''empty''), (''line'', JNum 2)]]
      \<and> analysis_hardcodedStrings a = [[(''text'', JStr ''Hello''), (''line'', JNum 1)]]"
    unfolding km tm by (simp add: l1 l2 t)
  moreover from inst run rep
  have "list_all (\<lambda>entry. map fst entry = [''file'', ''key'']) (missingKeys sample_report)
      \<and> list_all (\<lambda>entry. map fst entry = [''file'', ''text'']) (hardcodedStrings sample_report)"
    by blast
  ultimately show ?thesis using run rep by blast
qed

text \<open>
  C5 as stated fails for the grader: in the sample run the entries of \<open>missingKeys\<close> and
  \<open>hardcodedStrings\<close> have no property \<^verbatim>\<open>line\<close>.
\<close>

theorem grader_findings_without_line_counterexample:
  "gradeLanguageImplementation sample_env sample_config = Some (Inr sample_result)
   \<and> report sample_result = FullReport sample_report
   \<and> missingKeys sample_report = [[(''file'', JStr ''a.js''), (''key'', JStr ''empty'')]]
   \<and> hardcodedStrings sample_report = [[(''file'', JStr ''a.js''), (''text'', JStr ''Hello'')]]
   \<and> map_of [(''file'', JStr ''a.js''), (''key'', JStr ''empty'')] ''line'' = None
   \<and> map_of [(''file'', JStr ''a.js''), (''text'', JStr ''Hello'')] ''line'' = None"
  by (simp add: sample_run sample_result_def sample_report_def)

section \<open>The order of the files\<close>

lemma set_add_keys: "set (add_keys used ks) = set used \<union> set ks"
  by (induction ks arbitrary: used) (auto simp: add_keys_Cons set_add_def)

lemma distinct_add_keys: "distinct used \<Longrightarrow> distinct (add_keys used ks)"
  by (induction ks arbitrary: used) (auto simp: add_keys_Cons set_add_def)

lemma length_add_keys: "length (add_keys [] ks) = card (set ks)"
  using distinct_card [OF distinct_add_keys [of "[]" ks]] by (simp add: set_add_keys)

lemma mset_concat_map: "mset (concat (map f xs)) = (\<Sum>x\<in>#mset xs. mset (f x))"
  by (induction xs) simp_all

lemma mset_concat_perm:
  "mset xs = mset ys \<Longrightarrow> mset (concat (map f xs)) = mset (concat (map f ys))"
  by (simp add: mset_concat_map)

lemma set_concat_perm:
  "mset xs = mset ys \<Longrightarrow> set (concat (map f xs)) = set (concat (map f ys))"
  using mset_concat_perm [of xs ys f] by (metis set_mset_mset)

lemma length_concat_perm:
  "mset xs = mset ys \<Longrightarrow> length (concat (map f xs)) = length (concat (map f ys))"
  using mset_concat_perm [of xs ys f] by (metis size_mset)

lemma calculateScore_lengths:
  assumes "length (missingKeys r) = length (missingKeys r')"
    and "length (hardcodedStrings r) = length (hardcodedStrings r')"
    and "length (malformedKeys r) = length (malformedKeys r')"
    and "length (unusedKeys r) = length (unusedKeys r')"
  shows "calculateScore r cfg = calculateScore r' cfg"
  unfolding calculateScore_formula using assms by simp

lemma file_functions_cong:
  assumes "readFileSync e' = readFileSync e"
  shows "file_missing tr e' = file_missing tr e" "file_hardcoded e' = file_hardcoded e"
    "file_malformed e' = file_malformed e" "file_keys e' = file_keys e"
  using assms
  by (auto simp: file_missing_def file_hardcoded_def file_malformed_def file_keys_def fun_eq_iff)

lemma graded_perm:
  assumes rf: "readFileSync e' = readFileSync e"
    and perm: "mset (glob_sync e' (sourcePattern cfg) (ignorePattern cfg))
             = mset (glob_sync e (sourcePattern cfg) (ignorePattern cfg))"
  shows "same_outcome (Some (Inr (graded tr e cfg))) (Some (Inr (graded tr e' cfg)))"
proof -
  define fs where "fs = glob_sync e (sourcePattern cfg) (ignorePattern cfg)"
  define fs' where "fs' = glob_sync e' (sourcePattern cfg) (ignorePattern cfg)"
  define ff where "ff = final_findings tr e fs"
  define ff' where "ff' = final_findings tr e' fs'"
  note fc = file_functions_cong [OF rf]
  have p: "mset fs' = mset fs" using perm by (simp add: fs_def fs'_def)
  have len: "length fs' = length fs" using p by (metis size_mset)
  have m: "mset (missingKeys ff') = mset (missingKeys ff)"
    unfolding ff_def ff'_def final_findings_fields fc by (rule mset_concat_perm [OF p])
  have h: "mset (hardcodedStrings ff') = mset (hardcodedStrings ff)"
    unfolding ff_def ff'_def final_findings_fields fc by (rule mset_concat_perm [OF p])
  have b: "mset (malformedKeys ff') = mset (malformedKeys ff)"
    unfolding ff_def ff'_def final_findings_fields fc by (rule mset_concat_perm [OF p])
  have ks: "set (concat (map (file_keys e) fs')) = set (concat (map (file_keys e) fs))"
    by (rule set_concat_perm [OF p])
  have u: "unusedKeys ff' = unusedKeys ff"
    unfolding ff_def ff'_def final_findings_fields fc set_add_keys ks ..
  have k: "length (usedKeys ff') = length (usedKeys ff)"
    unfolding ff_def ff'_def final_findings_fields fc length_add_keys ks ..
  have lm: "length (missingKeys ff') = length (missingKeys ff)" using m by (metis size_mset)
  have lh: "length (hardcodedStrings ff') = length (hardcodedStrings ff)" using h by (metis size_mset)
  have lb: "length (malformedKeys ff') = length (malformedKeys ff)" using b by (metis size_mset)
  have sc: "calculateScore ff' cfg = calculateScore ff cfg"
    by (rule calculateScore_lengths) (simp_all add: lm lh lb u)
  have g: "graded tr e cfg =
      \<lparr>success = (calculateScore ff cfg \<ge> or_default (minimumScore cfg) 0.8),
       score = calculateScore ff cfg,
       report = FullReport
         \<lparr>missingKeys = missingKeys ff, hardcodedStrings = hardcodedStrings ff,
          unusedKeys = unusedKeys ff, malformedKeys = malformedKeys ff,
          summary =
            \<lparr>filesScanned = length fs,
             totalKeys = length (extractAllKeys tr []),
             usedKeysSize = length (usedKeys ff),
             missingKeysCount = length (missingKeys ff),
             hardcodedStringsCount = length (hardcodedStrings ff),
             unusedKeysCount = length (unusedKeys ff),
             malformedKeysCount = length (malformedKeys ff),
             summaryScore = calculateScore ff cfg\<rparr>\<rparr>\<rparr>"
    unfolding graded_def Let_def fs_def [symmetric] ff_def [symmetric] ..
  have g': "graded tr e' cfg =
      \<lparr>success = (calculateScore ff' cfg \<ge> or_default (minimumScore cfg) 0.8),
       score = calculateScore ff' cfg,
       report = FullReport
         \<lparr>missingKeys = missingKeys ff', hardcodedStrings = hardcodedStrings ff',
          unusedKeys = unusedKeys ff', malformedKeys = malformedKeys ff',
          summary =
            \<lparr>filesScanned = length fs',
             totalKeys = length (extractAllKeys tr []),
             usedKeysSize = length (usedKeys ff'),
             missingKeysCount = length (missingKeys ff'),
             hardcodedStringsCount = length (hardcodedStrings ff'),
             unusedKeysCount = length (unusedKeys ff'),
             malformedKeysCount = length (malformedKeys ff'),
             summaryScore = calculateScore ff' cfg\<rparr>\<rparr>\<rparr>"
    unfolding graded_def Let_def fs'_def [symmetric] ff'_def [symmetric] ..
  show ?thesis
    unfolding g g' by (simp add: sc len k lm lh lb u m h b)
qed

text \<open>
  C9: two runs over the same translation file, the same file contents and the same
  configuration, whose lists of source files are permutations of each other, return the
  same score, the same success flag, the same summary and the same findings up to
  order.
\<close>

theorem scan_order_irrelevant:
  assumes "existsSync e' = existsSync e" and "readFileSync e' = readFileSync e"
    and "JSON_parse e' = JSON_parse e"
    and "mset (glob_sync e' (sourcePattern cfg) (ignorePattern cfg))
       = mset (glob_sync e (sourcePattern cfg) (ignorePattern cfg))"
  shows "same_outcome (gradeLanguageImplementation e cfg) (gradeLanguageImplementation e' cfg)"
proof -
  have l: "load_translations e' cfg = load_translations e cfg"
    unfolding load_translations_def assms(1-3) ..
  show ?thesis
  proof (cases "load_translations e cfg")
    case (Inl message)
    with l have "load_translations e' cfg = Inl message" by simp
    from grade_not_loaded [OF Inl] grade_not_loaded [OF this] show ?thesis
      by (simp add: load_error_def)
  next
    case (Inr tr)
    with l have l': "load_translations e' cfg = Inr tr" by simp
    show ?thesis
    proof (cases "tr = JNull")
      case True
      with grade_loaded [OF Inr] grade_loaded [OF l'] show ?thesis by simp
    next
      case False
      with grade_loaded [OF Inr] grade_loaded [OF l'] graded_perm [OF assms(2,4), of tr]
      show ?thesis by simp
    qed
  qed
qed

theorem scan_order_irrelevant_witness:
  "existsSync two_files_env_reversed = existsSync two_files_env
   \<and> readFileSync two_files_env_reversed = readFileSync two_files_env
   \<and> JSON_parse two_files_env_reversed = JSON_parse two_files_env
   \<and> glob_sync two_files_env (sourcePattern sample_config) (ignorePattern sample_config)
        = [''a.js'', ''b.js'']
   \<and> glob_sync two_files_env_reversed (sourcePattern sample_config) (ignorePattern sample_config)
        = [''b.js'', ''a.js'']
   \<and> mset [''b.js'', ''a.js''] = mset [''a.js'', ''b.js'']
   \<and> same_outcome (gradeLanguageImplementation two_files_env sample_config)
        (gradeLanguageImplementation two_files_env_reversed sample_config)
   \<and> gradeLanguageImplementation two_files_env sample_config
        \<noteq> gradeLanguageImplementation two_files_env_reversed sample_config"
proof -
  have h: "existsSync two_files_env_reversed = existsSync two_files_env"
    "readFileSync two_files_env_reversed = readFileSync two_files_env"
    "JSON_parse two_files_env_reversed = JSON_parse two_files_env"
    by (simp_all add: two_files_env_reversed_def)
  have g: "glob_sync two_files_env (sourcePattern sample_config) (ignorePattern sample_config)
        = [''a.js'', ''b.js'']"
    "glob_sync two_files_env_reversed (sourcePattern sample_config) (ignorePattern sample_config)
        = [''b.js'', ''a.js'']"
    by (simp_all add: two_files_env_reversed_def two_files_env_def)
  have p: "mset [''b.js'', ''a.js''] = mset [''a.js'', ''b.js'']"
    by simp
  have p': "mset (glob_sync two_files_env_reversed (sourcePattern sample_config) (ignorePattern sample_config))
       = mset (glob_sync two_files_env (sourcePattern sample_config) (ignorePattern sample_config))"
    unfolding g by (rule p)
  have same: "same_outcome (gradeLanguageImplementation two_files_env sample_config)
        (gradeLanguageImplementation two_files_env_reversed sample_config)"
    by (rule scan_order_irrelevant [OF h p'])
  have differ: "gradeLanguageImplementation two_files_env sample_config
        \<noteq> gradeLanguageImplementation two_files_env_reversed sample_config"
    by code_simp
  from h g p same differ show ?thesis by blast
qed

end
